theory Spec2Isabelle
  imports Main "HOL-Library.Multiset"
begin

section \<open>Python values, errors and the environment of util/metadata.py\<close>

text \<open>
  The module records, for one command execution, the files it read and wrote, and later
  loads the records into a directed graph. The embedding below follows the source
  function by function. Everything the Python does beyond returning a value is explicit:
  a raise is an \<open>Inl\<close> of a sum type, the process environment, the file system, the
  clock and the tracking store are fields of a record \<open>world\<close> that is passed along,
  and helpers that live outside the module (util.file, util.misc, util.version, the
  standard library's platform queries) are the fields of a record \<open>ext\<close>.
\<close>

text \<open>
  Exceptions that are instances of Exception (what \<open>except Exception\<close> catches).
  \<open>CustomError t s\<close> is an instance of an Exception subclass defined by a command;
  \<open>t\<close> is the truth value that its \<open>__bool__\<close> or \<open>__len__\<close> gives. The
  built-in classes define neither, so their instances are true.
\<close>

datatype error =
    IOError string
  | OSError string
  | KeyError string
  | AttributeError string
  | NameError string
  | TypeError string
  | CustomError bool string

text \<open>The truth value of an exception object, as \<open>if cmd_exception:\<close> tests it.\<close>

fun exception_truthy :: "error \<Rightarrow> bool" where
  "exception_truthy (CustomError t s) = t"
| "exception_truthy e = True"

text \<open>
  What a call can raise: an instance of (a subclass of) Exception, or an instance of
  another BaseException subclass (SystemExit, KeyboardInterrupt, GeneratorExit), which
  \<open>except Exception\<close> lets through.
\<close>

datatype raised = Exception error | BaseException string

text \<open>The two FileArg subclasses.\<close>

datatype file_cls = InFile | OutFile

text \<open>
  The values a command parameter or a command's return value can hold. \<open>PFileArg c p\<close>
  is an instance of the str subclass \<open>c\<close> whose string content is \<open>p\<close>.
\<close>

datatype pyval =
    PNone
  | PBool bool
  | PInt int
  | PStr string
  | PFileArg file_cls string
  | PList "pyval list"
  | PMapping "(string \<times> pyval) list"
  | PObject string

fun truthy :: "pyval \<Rightarrow> bool" where
  "truthy PNone = False"
| "truthy (PBool b) = b"
| "truthy (PInt i) = (i \<noteq> 0)"
| "truthy (PStr s) = (s \<noteq> [])"
| "truthy (PFileArg c s) = (s \<noteq> [])"
| "truthy (PList vs) = (vs \<noteq> [])"
| "truthy (PMapping kvs) = (kvs \<noteq> [])"
| "truthy (PObject s) = True"



text \<open>Sequencing of calls that may raise: the first raise ends the sequence.\<close>

definition andthen :: "error + 'a \<Rightarrow> ('a \<Rightarrow> error + 'b) \<Rightarrow> error + 'b" where
  "andthen m f = (case m of Inl e \<Rightarrow> Inl e | Inr v \<Rightarrow> f v)"

subsection \<open>The persisted document\<close>

text \<open>
  A dict entry that the code may leave out is an \<open>option\<close> field: \<open>None\<close> means the key
  is absent from the dict.
\<close>

record file_info =
  fname :: string
  realpath :: string
  abspath :: string
  arg :: string
  arg_idx :: "nat list"
  hash :: "string option"
  size_f :: "int option"
  mtime :: "int option"
  ctime :: "int option"
  owner :: "string option"

record version_info_rec =
  viral_ngs_version :: string
  viral_ngs_path :: string
  viral_ngs_path_real :: string
  code_hash :: string

record run_env_rec =
  env_metadata_dir :: string
  platform :: string
  cpus :: int
  host :: string
  user :: string
  cwd :: string

record run_info_rec =
  beg_time :: int
  end_time :: int
  duration :: int
  exception :: "string option"
  argv :: "string list"
  cmd_was_skipped :: bool

record step_rec =
  step_id :: string
  run_id :: string
  cmd_module :: string
  cmd_name :: string
  version_info :: version_info_rec
  run_env :: run_env_rec
  run_info :: run_info_rec
  args :: "(string \<times> pyval) list"
  metadata_from_cmd_line :: pyval
  metadata_from_cmd_return :: "(string \<times> pyval) list"

record step_data =
  format :: string
  step :: step_rec
  in_files :: "string \<rightharpoonup> file_info"
  out_files :: "string \<rightharpoonup> file_info"

subsection \<open>The world: environment variables, files, clock, tracking store\<close>

datatype fkind = Regular | Directory | Fifo | Special

record fnode =
  kind :: fkind
  content :: "nat list"
  st_mtime :: int
  st_ctime :: int
  st_uid :: nat
  readable :: bool
  writable :: bool

text \<open>
  \<open>fs\<close> maps a path to the file it names (symbolic links are not modelled: a path
  names its file directly). \<open>creatable p\<close> says whether a file can be created at the
  free path \<open>p\<close>. \<open>store\<close> holds the JSON documents written by util.file.dump_file,
  each as the document it serialises; \<open>store_writable\<close> says where such a write
  succeeds.
\<close>

record world =
  environ :: "string \<rightharpoonup> string"
  fs :: "string \<rightharpoonup> fnode"
  creatable :: "string \<Rightarrow> bool"
  passwd :: "nat \<rightharpoonup> string"
  euid :: nat
  now :: int
  store :: "string \<rightharpoonup> step_data"
  store_writable :: "string \<Rightarrow> bool"

text \<open>
  Collaborators outside this module. A field of type \<open>error + 'a\<close> is a call that may
  raise. \<open>uuid4 k\<close> is the k-th identifier drawn. \<open>digest alg bytes\<close> is the hex digest
  that util.file.hash_file computes from a file's bytes.
\<close>

record ext =
  strftime :: "int \<Rightarrow> string"
  getuser :: "error + string"
  getcwd :: "error + string"
  basename :: "string \<Rightarrow> string"
  os_realpath :: "string \<Rightarrow> string"
  os_abspath :: "string \<Rightarrow> string"
  uuid4 :: "nat \<Rightarrow> string"
  string_to_file_name :: "string \<Rightarrow> error + string"
  run_and_print :: "string \<Rightarrow> error + (int \<times> string)"
  get_version :: "error + string"
  get_project_path :: "error + string"
  platform_platform :: "error + string"
  available_cpu_count :: "error + int"
  getfqdn :: "error + string"
  sys_argv :: "string list"
  format_exc :: "error \<Rightarrow> string"
  digest :: "string \<Rightarrow> nat list \<Rightarrow> error + string"
  json_serializable :: "step_data \<Rightarrow> bool"

subsection \<open>Operating-system calls on the world\<close>

definition os_path_exists :: "world \<Rightarrow> string \<Rightarrow> bool" where
  "os_path_exists w p = (fs w p \<noteq> None)"

definition os_path_isfile :: "world \<Rightarrow> string \<Rightarrow> bool" where
  "os_path_isfile w p = (case fs w p of None \<Rightarrow> False | Some n \<Rightarrow> kind n = Regular)"

definition os_path_isdir :: "world \<Rightarrow> string \<Rightarrow> bool" where
  "os_path_isdir w p = (case fs w p of None \<Rightarrow> False | Some n \<Rightarrow> kind n = Directory)"

definition os_access_W_OK :: "world \<Rightarrow> string \<Rightarrow> bool" where
  "os_access_W_OK w p = (case fs w p of None \<Rightarrow> False | Some n \<Rightarrow> writable n)"

definition os_stat :: "world \<Rightarrow> string \<Rightarrow> error + fnode" where
  "os_stat w p = (case fs w p of None \<Rightarrow> Inl (OSError p) | Some n \<Rightarrow> Inr n)"

definition S_ISFIFO :: "fnode \<Rightarrow> bool" where
  "S_ISFIFO n = (kind n = Fifo)"

definition getpwuid :: "world \<Rightarrow> nat \<Rightarrow> error + string" where
  "getpwuid w u = (case passwd w u of None \<Rightarrow> Inl (KeyError ''getpwuid'') | Some nm \<Rightarrow> Inr nm)"


text \<open>
  \<open>open(p, 'w')\<close> followed by closing: creates an empty regular file at a free path, or
  truncates an existing writable non-directory.
\<close>

definition open_write :: "world \<Rightarrow> string \<Rightarrow> error + world" where
  "open_write w p =
     (case fs w p of
        None \<Rightarrow>
          if creatable w p
          then Inr (w\<lparr>fs := (fs w)(p \<mapsto>
                 \<lparr>kind = Regular, content = [], st_mtime = now w, st_ctime = now w,
                  st_uid = euid w, readable = True, writable = True\<rparr>)\<rparr>)
          else Inl (IOError p)
      | Some n \<Rightarrow>
          if kind n = Directory \<or> \<not> writable n then Inl (IOError p)
          else Inr (w\<lparr>fs := (fs w)(p \<mapsto> n\<lparr>content := [], st_mtime := now w\<rparr>)\<rparr>))"

definition os_unlink :: "world \<Rightarrow> string \<Rightarrow> error + world" where
  "os_unlink w p =
     (case fs w p of
        None \<Rightarrow> Inl (OSError p)
      | Some n \<Rightarrow> if kind n = Directory then Inl (OSError p) else Inr (w\<lparr>fs := (fs w)(p := None)\<rparr>))"

definition os_path_join :: "string \<Rightarrow> string \<Rightarrow> string" where
  "os_path_join a b = a @ ''/'' @ b"

fun str_join :: "string \<Rightarrow> string list \<Rightarrow> string" where
  "str_join sep [] = []"
| "str_join sep [s] = s"
| "str_join sep (s # t # ss) = s @ sep @ str_join sep (t # ss)"

section \<open>Recording of metadata\<close>

definition VIRAL_NGS_METADATA_FORMAT :: string where
  "VIRAL_NGS_METADATA_FORMAT = ''1.0.0''"

definition metadata_dir :: "world \<Rightarrow> error + string" where
  "metadata_dir w =
     (case environ w ''VIRAL_NGS_METADATA_PATH'' of
        None \<Rightarrow> Inl (KeyError ''VIRAL_NGS_METADATA_PATH'')
      | Some d \<Rightarrow> Inr d)"

definition is_metadata_tracking_enabled :: "world \<Rightarrow> bool" where
  "is_metadata_tracking_enabled w = (''VIRAL_NGS_METADATA_PATH'' \<in> dom (environ w))"

subsection \<open>FileArg, InFile, OutFile\<close>

definition FileArg_new :: "file_cls \<Rightarrow> string \<Rightarrow> pyval" where
  "FileArg_new c p = PFileArg c p"


text \<open>
  \<open>OutFile.__new__\<close> changes the file system when it probes, so it returns the world
  with its result.
\<close>

definition OutFile_new :: "world \<Rightarrow> string \<Rightarrow> (error + pyval) \<times> world" where
  "OutFile_new w path =
     (if ''VIRAL_NGS_SKIP_CMD'' \<notin> dom (environ w) then
        if \<not> os_path_exists w path then
          (case open_write w path of
             Inl e \<Rightarrow> (Inl e, w)
           | Inr w1 \<Rightarrow>
               (case os_unlink w1 path of
                  Inl e \<Rightarrow> (Inl e, w1)
                | Inr w2 \<Rightarrow> (Inr (FileArg_new OutFile path), w2)))
        else if \<not> (os_path_isfile w path \<and> os_access_W_OK w path)
          then (Inl (IOError (''Output filel not writable: '' @ path)), w)
          else (Inr (FileArg_new OutFile path), w)
      else (Inr (FileArg_new OutFile path), w))"


definition module_OutFile :: "world \<Rightarrow> world \<Rightarrow> string \<Rightarrow> (error + pyval) \<times> world" where
  "module_OutFile imp w p =
     (if \<not> is_metadata_tracking_enabled imp then (Inr (PStr p), w) else OutFile_new w p)"

subsection \<open>Hasher\<close>

text \<open>
  Modelled from the spec: util.file.hash_file is not part of this module. It reads the
  file's bytes and returns their digest under the named algorithm; reading can fail with
  an I/O error.
\<close>

definition hash_file :: "ext \<Rightarrow> world \<Rightarrow> string \<Rightarrow> string \<Rightarrow> error + string" where
  "hash_file x w file alg =
     (case fs w file of
        None \<Rightarrow> Inl (IOError file)
      | Some n \<Rightarrow> if \<not> readable n then Inl (IOError file) else digest x alg (content n))"

record hasher =
  hash_algorithm :: string

definition Hasher_init :: "string \<Rightarrow> hasher" where
  "Hasher_init alg = \<lparr>hash_algorithm = alg\<rparr>"

text \<open>The body of the \<open>try\<close> in \<open>Hasher.__call__\<close>; \<open>and\<close> evaluates os.stat only for a regular file.\<close>

definition Hasher_try :: "ext \<Rightarrow> hasher \<Rightarrow> world \<Rightarrow> string \<Rightarrow> error + string" where
  "Hasher_try x self w file =
     (if os_path_isfile w file then
        andthen (os_stat w file) (\<lambda>st.
          if \<not> S_ISFIFO st
          then andthen (hash_file x w file (hash_algorithm self))
                 (\<lambda>h. Inr (hash_algorithm self @ ''_'' @ h))
          else Inr [])
      else Inr [])"

text \<open>\<open>except Exception\<close>: a warning is logged and the initial \<open>file_hash = ''\<close> is returned.\<close>

definition Hasher_call :: "ext \<Rightarrow> hasher \<Rightarrow> world \<Rightarrow> string \<Rightarrow> error + string" where
  "Hasher_call x self w file =
     (case Hasher_try x self w file of Inl e \<Rightarrow> Inr [] | Inr file_hash \<Rightarrow> Inr file_hash)"

subsection \<open>Run identifiers and the code version\<close>

text \<open>
  \<open>create_run_id(t)\<close>; \<open>k\<close> counts the identifiers drawn so far from uuid.uuid4.
  util.file.string_to_file_name is a helper outside this module and may raise.
\<close>

definition create_run_id :: "ext \<Rightarrow> int \<Rightarrow> nat \<Rightarrow> error + string" where
  "create_run_id x t k =
     andthen (getuser x) (\<lambda>u.
     andthen (getcwd x) (\<lambda>d.
     andthen (string_to_file_name x
                (str_join ''__'' [drop 2 (strftime x t), u, basename x d, uuid4 x k]))
       (\<lambda>s. Inr (take 210 s))))"

text \<open>
  The local \<open>run_cmd\<close> of \<open>tag_code_version\<close>: the command's standard output when it
  exits with 0 (util.misc.run_and_print hands it over decoded and stripped), else \<open>''\<close>.
\<close>

definition run_cmd :: "ext \<Rightarrow> string \<Rightarrow> error + string" where
  "run_cmd x cmd = andthen (run_and_print x cmd) (\<lambda>(rc, out). Inr (if rc = 0 then out else []))"

text \<open>
  \<open>tag_code_version\<close> catches every Exception of its body and returns the hash computed
  so far. The git repository it tags is outside the world modelled here.
\<close>

definition tag_code_version :: "ext \<Rightarrow> string \<Rightarrow> string option \<Rightarrow> string" where
  "tag_code_version x tag push_to =
     (case get_project_path x of
        Inl e \<Rightarrow> []
      | Inr d \<Rightarrow>
         (case run_cmd x ''git stash create'' of
            Inl e \<Rightarrow> []
          | Inr h1 \<Rightarrow>
             (case (if h1 \<noteq> [] then Inr h1 else run_cmd x ''git log -1 --format=%H'') of
                Inl e \<Rightarrow> []
              | Inr ch \<Rightarrow>
                 (case run_cmd x (''git tag '' @ tag @ '' '' @ ch) of
                    Inl e \<Rightarrow> ch
                  | Inr t1 \<Rightarrow>
                     (case push_to of
                        None \<Rightarrow> ch
                      | Some remote \<Rightarrow>
                         if remote \<noteq> [] then
                           (case run_cmd x (''git push '' @ remote @ '' '' @ tag) of
                              Inl e \<Rightarrow> ch
                            | Inr t2 \<Rightarrow> ch)
                         else ch)))))"

subsection \<open>The files of a step\<close>

text \<open>\<open>str(i)\<close> for an index.\<close>

function str_nat :: "nat \<Rightarrow> string" where
  "str_nat n =
     (if n < 10 then [char_of (48 + n)]
      else str_nat (n div 10) @ [char_of (48 + n mod 10)])"
  by pat_completeness auto
termination
  by (relation "measure id") auto

declare str_nat.simps [simp del]

text \<open>
  \<open>get_FileArgs\<close>: a non-empty FileArg yields itself under the index prefix; a list
  yields what its elements yield, each under the prefix extended by its position;
  anything else yields nothing. The result lists (index, class, path).
\<close>

fun get_FileArgs :: "pyval \<Rightarrow> nat list \<Rightarrow> (nat list \<times> file_cls \<times> string) list"
  and get_FileArgs_enum :: "pyval list \<Rightarrow> nat \<Rightarrow> nat list \<Rightarrow> (nat list \<times> file_cls \<times> string) list"
where
  "get_FileArgs (PFileArg c p) idx_prefix = (if p \<noteq> [] then [(idx_prefix, c, p)] else [])"
| "get_FileArgs (PList vs) idx_prefix = get_FileArgs_enum vs 0 idx_prefix"
| "get_FileArgs PNone idx_prefix = []"
| "get_FileArgs (PBool b) idx_prefix = []"
| "get_FileArgs (PInt i) idx_prefix = []"
| "get_FileArgs (PStr s) idx_prefix = []"
| "get_FileArgs (PMapping kvs) idx_prefix = []"
| "get_FileArgs (PObject s) idx_prefix = []"
| "get_FileArgs_enum [] i idx_prefix = []"
| "get_FileArgs_enum (v # vs) i idx_prefix =
     get_FileArgs v (idx_prefix @ [i]) @ get_FileArgs_enum vs (Suc i) idx_prefix"

definition port_name_of :: "string \<Rightarrow> nat list \<Rightarrow> string" where
  "port_name_of a idx = a @ concat (map (\<lambda>i. ''_'' @ str_nat i) idx)"

text \<open>
  The inner \<open>try\<close> around os.stat: size, mtime and ctime are set together once os.stat
  has returned, the owner after them once the password database knows the uid; an
  Exception at either point leaves the entry as it is then.
\<close>

definition stat_update :: "world \<Rightarrow> string \<Rightarrow> file_info \<Rightarrow> file_info" where
  "stat_update w p fi =
     (case os_stat w p of
        Inl e \<Rightarrow> fi
      | Inr file_stat \<Rightarrow>
          (let fi1 = fi\<lparr>size_f := Some (int (length (content file_stat))),
                        mtime := Some (st_mtime file_stat),
                        ctime := Some (st_ctime file_stat)\<rparr>
           in case getpwuid w (st_uid file_stat) of
                Inl e \<Rightarrow> fi1
              | Inr nm \<Rightarrow> fi1\<lparr>owner := Some nm\<rparr>))"

definition make_file_info ::
  "ext \<Rightarrow> world \<Rightarrow> error option \<Rightarrow> string \<Rightarrow> nat list \<Rightarrow> file_cls \<Rightarrow> string \<Rightarrow> error + file_info" where
  "make_file_info x w cmd_exception a idx c p =
     (let fi = \<lparr>fname = p, realpath = os_realpath x p, abspath = os_abspath x p,
                arg = a, arg_idx = idx, hash = None, size_f = None, mtime = None,
                ctime = None, owner = None\<rparr>
      in if c = InFile \<or> cmd_exception = None
         then andthen (Hasher_call x (Hasher_init ''sha1'') w p)
                (\<lambda>h. Inr (stat_update w p (fi\<lparr>hash := Some h\<rparr>)))
         else Inr fi)"

text \<open>The inner loop, over the file arguments of one parameter.\<close>

fun record_files ::
  "ext \<Rightarrow> world \<Rightarrow> error option \<Rightarrow> string \<Rightarrow> (nat list \<times> file_cls \<times> string) list
     \<Rightarrow> step_data \<Rightarrow> error + step_data" where
  "record_files x w ce a [] sd = Inr sd"
| "record_files x w ce a ((idx, c, p) # rest) sd =
     andthen (make_file_info x w ce a idx c p) (\<lambda>fi.
       record_files x w ce a rest
         (if c = InFile
          then sd\<lparr>in_files := (in_files sd)(port_name_of a idx \<mapsto> fi)\<rparr>
          else sd\<lparr>out_files := (out_files sd)(port_name_of a idx \<mapsto> fi)\<rparr>))"

text \<open>The outer loop, over the parameters and then the returned metadata.\<close>

fun record_args ::
  "ext \<Rightarrow> world \<Rightarrow> error option \<Rightarrow> (string \<times> pyval) list \<Rightarrow> step_data \<Rightarrow> error + step_data" where
  "record_args x w ce [] sd = Inr sd"
| "record_args x w ce ((a, v) # rest) sd =
     andthen (record_files x w ce a (get_FileArgs v []) sd) (record_args x w ce rest)"

subsection \<open>Assembling and persisting the step record\<close>

text \<open>A dict or namespace without the entry of one name (\<open>pop\<close>, \<open>delattr\<close>).\<close>

definition without :: "string \<Rightarrow> (string \<times> pyval) list \<Rightarrow> (string \<times> pyval) list" where
  "without nm ns = filter (\<lambda>kv. fst kv \<noteq> nm) ns"

text \<open>
  The first part of the body of \<open>if is_metadata_tracking_enabled():\<close>, headed
  "Record data pertaining to the whole step" in the source, in the order of the source.
  \<open>cmd_mod\<close> and \<open>cmd_nm\<close> are the command's module and name, \<open>args_dict\<close> the copy
  of the parsed arguments taken on entry, \<open>beg\<close> the start time. The result is the step
  identifier and the document with its two port dicts still empty.
\<close>

definition whole_step_data ::
  "ext \<Rightarrow> string \<Rightarrow> string \<Rightarrow> (string \<times> pyval) list \<Rightarrow> int
     \<Rightarrow> string option \<Rightarrow> pyval \<Rightarrow> world \<Rightarrow> error + (string \<times> step_data)" where
  "whole_step_data x cmd_mod cmd_nm args_dict beg cmd_exception_str cmd_result w =
     (let fin = now w in
      andthen (metadata_dir w) (\<lambda>logged.
      andthen (create_run_id x beg 0) (\<lambda>fresh.
      let rid = (case environ w ''VIRAL_NGS_METADATA_RUN_ID'' of None \<Rightarrow> fresh | Some r \<Rightarrow> r) in
      andthen (create_run_id x beg 1) (\<lambda>srun.
      let sid = str_join ''__'' [srun, cmd_mod, cmd_nm] in
      andthen (metadata_dir w) (\<lambda>md1.
      let code_repo = os_path_join md1 ''code_repo'';
          ch = tag_code_version x (''cmd_'' @ sid)
                 (if os_path_isdir w code_repo then Some code_repo else None);
          popped = (case map_of args_dict ''metadata'' of None \<Rightarrow> PMapping [] | Some m \<Rightarrow> m);
          from_cmd_line = (if truthy popped then popped else PMapping []);
          args1 = without ''metadata'' args_dict;
          from_cmd_return = (case cmd_result of PMapping kvs \<Rightarrow> kvs | _ \<Rightarrow> []);
          args2 = without ''func_main'' args1 in
      andthen (get_version x) (\<lambda>ver.
      andthen (get_project_path x) (\<lambda>pp.
      andthen (get_project_path x) (\<lambda>pp2.
      andthen (metadata_dir w) (\<lambda>md2.
      andthen (platform_platform x) (\<lambda>plat.
      andthen (available_cpu_count x) (\<lambda>ncpu.
      andthen (getfqdn x) (\<lambda>fqdn.
      andthen (getuser x) (\<lambda>usr.
      andthen (getcwd x) (\<lambda>wd.
      Inr (sid,
           \<lparr>format = VIRAL_NGS_METADATA_FORMAT,
            step = \<lparr>step_id = sid, run_id = rid, cmd_module = cmd_mod, cmd_name = cmd_nm,
                     version_info = \<lparr>viral_ngs_version = ver, viral_ngs_path = pp,
                                      viral_ngs_path_real = os_realpath x pp2,
                                      code_hash = ch\<rparr>,
                     run_env = \<lparr>env_metadata_dir = md2, platform = plat, cpus = ncpu,
                                 host = fqdn, user = usr, cwd = wd\<rparr>,
                     run_info = \<lparr>beg_time = beg, end_time = fin, duration = fin - beg,
                                  exception = cmd_exception_str, argv = sys_argv x,
                                  cmd_was_skipped =
                                    (''VIRAL_NGS_SKIP_CMD'' \<in> dom (environ w))\<rparr>,
                     args = args2,
                     metadata_from_cmd_line = from_cmd_line,
                     metadata_from_cmd_return = from_cmd_return\<rparr>,
            in_files = Map.empty, out_files = Map.empty\<rparr>)))))))))))))))"

text \<open>
  The whole assembly: the step data, then the part headed "Record information about the
  input and output files used by the command". The loops run over the items of
  \<open>args_dict\<close> and of \<open>metadata_from_cmd_return\<close>, the dicts that the step data holds.
\<close>

definition assemble_step_data ::
  "ext \<Rightarrow> string \<Rightarrow> string \<Rightarrow> (string \<times> pyval) list \<Rightarrow> int \<Rightarrow> error option
     \<Rightarrow> string option \<Rightarrow> pyval \<Rightarrow> world \<Rightarrow> error + (string \<times> step_data)" where
  "assemble_step_data x cmd_mod cmd_nm args_dict beg cmd_exception cmd_exception_str cmd_result w =
     andthen (whole_step_data x cmd_mod cmd_nm args_dict beg cmd_exception_str cmd_result w)
       (\<lambda>(sid, sd).
     andthen (record_args x w cmd_exception
                (args (step sd) @ metadata_from_cmd_return (step sd)) sd) (\<lambda>sd1.
     Inr (sid, sd1)))"

text \<open>
  \<open>json.dumps(step_data, sort_keys=True, indent=4, default=str)\<close>: the text is
  represented by the document; serialisation raises on a document json cannot write.
\<close>

definition json_dumps :: "ext \<Rightarrow> step_data \<Rightarrow> error + step_data" where
  "json_dumps x sd = (if json_serializable x sd then Inr sd else Inl (TypeError ''json''))"

text \<open>
  Modelled from the spec: util.file.dump_file is not part of this module. It writes a
  whole text document under a key of the store; the write may fail.
\<close>

definition dump_file :: "world \<Rightarrow> string \<Rightarrow> step_data \<Rightarrow> error + world" where
  "dump_file w p doc =
     (if store_writable w p then Inr (w\<lparr>store := (store w)(p \<mapsto> doc)\<rparr>) else Inl (IOError p))"

text \<open>The whole body of \<open>if is_metadata_tracking_enabled():\<close>.\<close>

definition record_metadata ::
  "ext \<Rightarrow> string \<Rightarrow> string \<Rightarrow> (string \<times> pyval) list \<Rightarrow> int \<Rightarrow> error option
     \<Rightarrow> string option \<Rightarrow> pyval \<Rightarrow> world \<Rightarrow> error + world" where
  "record_metadata x cmd_mod cmd_nm args_dict beg cmd_exception cmd_exception_str cmd_result w =
     andthen (assemble_step_data x cmd_mod cmd_nm args_dict beg cmd_exception
                cmd_exception_str cmd_result w) (\<lambda>(sid, sd).
     andthen (metadata_dir w) (\<lambda>md.
     andthen (json_dumps x sd) (\<lambda>doc.
     dump_file w (os_path_join md (sid @ ''.json'')) doc)))"

subsection \<open>The wrapper returned by add_metadata_tracking\<close>

text \<open>
  What the command body does: it returns a value or raises, and leaves a world behind.
\<close>

datatype outcome = Returned pyval | Raised raised

text \<open>
  What the invoker of the wrapper observes: a return value or a raise, and the world
  afterwards. \<open>body_runs\<close> counts the calls of \<open>cmd_main\<close> the wrapper made.
\<close>

record invocation =
  result :: "raised + pyval"
  final :: world
  body_runs :: nat

text \<open>\<open>delattr(args, name)\<close> raises AttributeError when the namespace has no such attribute.\<close>

definition delattr :: "(string \<times> pyval) list \<Rightarrow> string \<Rightarrow> error + (string \<times> pyval) list" where
  "delattr ns nm =
     (case map_of ns nm of
        None \<Rightarrow> Inl (AttributeError nm)
      | Some v \<Rightarrow> Inr (without nm ns))"

text \<open>
  \<open>cmd_main(args) if 'VIRAL_NGS_SKIP_CMD' not in os.environ else None\<close>: the body is
  called unless the variable is set; when it is set the result is None and the world is
  untouched. \<open>n\<close> counts the calls of \<open>cmd_main\<close> made so far: the count goes up in
  the branch that makes the call, and only there.
\<close>

definition call_counted ::
  "((string \<times> pyval) list \<Rightarrow> world \<Rightarrow> outcome \<times> world) \<Rightarrow> (string \<times> pyval) list \<Rightarrow> world
     \<Rightarrow> nat \<Rightarrow> (outcome \<times> world) \<times> nat" where
  "call_counted cmd_main a w n =
     (if ''VIRAL_NGS_SKIP_CMD'' \<notin> dom (environ w) then (cmd_main a w, Suc n)
      else ((Returned PNone, w), n))"

text \<open>The same expression without the count: what it evaluates to, and the world then.\<close>

definition call_cmd_main ::
  "((string \<times> pyval) list \<Rightarrow> world \<Rightarrow> outcome \<times> world) \<Rightarrow> (string \<times> pyval) list \<Rightarrow> world
     \<Rightarrow> outcome \<times> world" where
  "call_cmd_main cmd_main a w = fst (call_counted cmd_main a w 0)"

text \<open>
  \<open>except Exception as e: cmd_exception = e\<close> binds an Exception only; after a return
  or another BaseException \<open>cmd_exception\<close> keeps its initial None.
\<close>

definition caught :: "outcome \<Rightarrow> error option" where
  "caught out = (case out of Raised (Exception e) \<Rightarrow> Some e | _ \<Rightarrow> None)"

text \<open>
  \<open>_run_cmd_with_tracking(args)\<close>. The namespace \<open>args0\<close> is the list of its attributes.
  \<open>delattr\<close> stands before the \<open>try\<close>, so its AttributeError reaches the invoker. A
  BaseException that is not an Exception stays pending through the \<open>finally\<close> block
  and propagates after it. The inner \<open>try ... except Exception\<close> turns every Exception
  of the recording into a logged warning. The last statement,
  \<open>if cmd_exception: raise cmd_exception\<close>, tests the truth value of the caught
  exception: a caught exception that is false is not raised again. The function has no
  \<open>return\<close> statement: when it does not raise it returns None. \<open>body_runs\<close> is the
  count of calls of \<open>cmd_main\<close>, started at 0.
\<close>

definition run_cmd_with_tracking ::
  "ext \<Rightarrow> string \<Rightarrow> string \<Rightarrow> ((string \<times> pyval) list \<Rightarrow> world \<Rightarrow> outcome \<times> world)
     \<Rightarrow> (string \<times> pyval) list \<Rightarrow> world \<Rightarrow> invocation" where
  "run_cmd_with_tracking x cmd_mod cmd_nm cmd_main args0 w0 =
     (let args_dict = args0 in
      case delattr args0 ''metadata'' of
        Inl e \<Rightarrow> \<lparr>result = Inl (Exception e), final = w0, body_runs = 0\<rparr>
      | Inr args1 \<Rightarrow>
         (let beg = now w0;
              counted = call_counted cmd_main args1 w0 0;
              out = fst (fst counted);
              w1 = snd (fst counted);
              cmd_exception = caught out;
              cmd_exception_str = map_option (format_exc x) cmd_exception;
              cmd_result = (case out of Returned v \<Rightarrow> v | _ \<Rightarrow> PNone);
              w2 = (if is_metadata_tracking_enabled w1 then
                      (case record_metadata x cmd_mod cmd_nm args_dict beg cmd_exception
                              cmd_exception_str cmd_result w1 of
                         Inl e \<Rightarrow> w1
                       | Inr w' \<Rightarrow> w')
                    else w1)
          in \<lparr>result = (case out of
                          Raised (BaseException b) \<Rightarrow> Inl (BaseException b)
                        | _ \<Rightarrow> (case cmd_exception of
                                 Some e \<Rightarrow>
                                   if exception_truthy e then Inl (Exception e) else Inr PNone
                               | None \<Rightarrow> Inr PNone)),
              final = w2,
              body_runs = snd counted\<rparr>))"

section \<open>Analysis of metadata\<close>

subsection \<open>The graph\<close>

text \<open>
  A networkx.DiGraph: nodes are keyed by their identifier and carry a dict of attributes
  (values kept as their text), edges are ordered pairs of node identifiers.
  \<open>add_node(n, **attrs)\<close> creates the node or updates the attributes of the node that
  is there; \<open>add_edge(u, v)\<close> creates the end points that are missing.
\<close>

type_synonym attrs = "string \<rightharpoonup> string"

record graph =
  nodes :: "string \<rightharpoonup> attrs"
  edges :: "(string \<times> string) set"

definition empty_graph :: graph where
  "empty_graph = \<lparr>nodes = Map.empty, edges = {}\<rparr>"

definition add_node :: "graph \<Rightarrow> string \<Rightarrow> attrs \<Rightarrow> graph" where
  "add_node g n a =
     g\<lparr>nodes := (nodes g)(n \<mapsto> (case nodes g n of None \<Rightarrow> a | Some old \<Rightarrow> old ++ a))\<rparr>"

definition add_edge :: "graph \<Rightarrow> string \<Rightarrow> string \<Rightarrow> graph" where
  "add_edge g u v =
     (let g1 = add_node g u Map.empty;
          g2 = add_node g1 v Map.empty
      in g2\<lparr>edges := insert (u, v) (edges g2)\<rparr>)"

subsection \<open>ProvenanceGraph.load\<close>

text \<open>
  A step record as \<open>json.loads\<close> returns it, with the keys that \<open>load\<close> reads:
  \<open>step_record['step']\<close>, and the items of \<open>step_record['in_files']\<close> and of
  \<open>step_record['out_files']\<close>, each a port name with the dict of its file occurrence.
\<close>

record step_record =
  sr_step :: attrs
  sr_in_files :: "(string \<times> attrs) list"
  sr_out_files :: "(string \<times> attrs) list"

definition endswith :: "string \<Rightarrow> string \<Rightarrow> bool" where
  "endswith s suf = (length suf \<le> length s \<and> drop (length s - length suf) s = suf)"

text \<open>
  The loop over the items of one of the two dicts; \<open>inp\<close> is \<open>file_kind == 'in_files'\<close>
  and \<open>sid\<close> the step identifier.
\<close>

fun load_ports :: "string \<Rightarrow> bool \<Rightarrow> (string \<times> attrs) list \<Rightarrow> graph \<Rightarrow> graph" where
  "load_ports sid inp [] g = g"
| "load_ports sid inp ((port_name, info) # rest) g =
     (let port_id = sid @ ''__'' @ port_name;
          g1 = add_node g port_id info;
          g2 = add_node g1 port_id [''node_kind'' \<mapsto> (if inp then ''input'' else ''output'')];
          g3 = (if inp then add_edge g2 port_id sid else add_edge g2 sid port_id);
          g4 = (case info ''hash'' of
                  None \<Rightarrow> g3
                | Some file_id \<Rightarrow>
                    if file_id \<noteq> [] then
                      (let g5 = add_node g3 file_id [''node_kind'' \<mapsto> ''file'']
                       in if inp then add_edge g5 file_id port_id
                          else add_edge g5 port_id file_id)
                    else g3)
      in load_ports sid inp rest g4)"

text \<open>
  The body of \<open>if step_record_fname.endswith('.json')\<close> after parsing. The name
  \<open>pgraph\<close> is free in \<open>load\<close>: the function neither binds nor receives it, so it is
  looked up among the module's globals each time it is used. \<open>pg\<close> is that binding:
  \<open>None\<close> when the module has no global of this name (the module as written defines
  none), \<open>Some g\<close> when it is bound to the graph \<open>g\<close>. The lookup of \<open>step_id\<close> comes
  first and raises KeyError; then \<open>pgraph\<close> is looked up; a \<open>node_kind\<close> key in the step
  dict clashes with the keyword of the call.
\<close>

definition load_record :: "graph option \<Rightarrow> step_record \<Rightarrow> error + graph" where
  "load_record pg r =
     (case sr_step r ''step_id'' of
        None \<Rightarrow> Inl (KeyError ''step_id'')
      | Some sid \<Rightarrow>
         (case pg of
            None \<Rightarrow> Inl (NameError ''pgraph'')
          | Some g \<Rightarrow>
              if ''node_kind'' \<in> dom (sr_step r) then Inl (TypeError ''node_kind'')
              else Inr (load_ports sid False (sr_out_files r)
                         (load_ports sid True (sr_in_files r)
                           (add_node g sid ([''node_kind'' \<mapsto> ''step''] ++ sr_step r))))))"

text \<open>
  The loop over the directory listing. An entry is a file name with the outcome of
  reading and parsing that file (util.file.slurp_file and json.loads, which may raise);
  it is read only when the name ends with \<open>.json\<close>. The graph is changed in place, so
  after a record is loaded the name is bound to the graph with that record in it. The
  last equation is \<open>return pgraph\<close>.
\<close>

fun load_entries :: "graph option \<Rightarrow> (string \<times> (error + step_record)) list \<Rightarrow> error + graph" where
  "load_entries pg [] = (case pg of None \<Rightarrow> Inl (NameError ''pgraph'') | Some g \<Rightarrow> Inr g)"
| "load_entries pg ((step_record_fname, parsed) # rest) =
     (if endswith step_record_fname ''.json'' then
        andthen parsed (\<lambda>r.
        andthen (load_record pg r) (\<lambda>g. load_entries (Some g) rest))
      else load_entries pg rest)"

text \<open>
  \<open>load(path=None)\<close>: \<open>listdir\<close> is os.listdir together with what reading each entry
  gives.
\<close>

definition load ::
  "graph option \<Rightarrow> world \<Rightarrow> (string \<Rightarrow> error + (string \<times> (error + step_record)) list)
     \<Rightarrow> string option \<Rightarrow> error + graph" where
  "load pg w listdir path =
     andthen (case path of None \<Rightarrow> metadata_dir w | Some p \<Rightarrow> Inr p) (\<lambda>p.
     andthen (listdir p) (\<lambda>entries. load_entries pg entries))"

section \<open>Concrete inputs\<close>

text \<open>
  Collaborators that all succeed, and small worlds, for evaluating the functions above.
\<close>

definition ext0 :: ext where
  "ext0 = \<lparr>strftime = (\<lambda>t. ''20171104093000''), getuser = Inr ''ilya'',
           getcwd = Inr ''/work'', basename = (\<lambda>p. ''work''), os_realpath = (\<lambda>p. p),
           os_abspath = (\<lambda>p. p), uuid4 = (\<lambda>k. if k = 0 then ''u0'' else ''u1''),
           string_to_file_name = (\<lambda>s. Inr s), run_and_print = (\<lambda>c. Inr (0, ''c0de'')),
           get_version = Inr ''v1'', get_project_path = Inr ''/proj'',
           platform_platform = Inr ''Linux'', available_cpu_count = Inr 4,
           getfqdn = Inr ''node1'', sys_argv = [''cmd''], format_exc = (\<lambda>e. ''Traceback''),
           digest = (\<lambda>alg bs. Inr (if bs = [] then ''da39'' else ''beef'')),
           json_serializable = (\<lambda>d. True)\<rparr>"

definition file0 :: fnode where
  "file0 = \<lparr>kind = Regular, content = [104, 105], st_mtime = 10, st_ctime = 10, st_uid = 0,
            readable = True, writable = True\<rparr>"

definition world0 :: world where
  "world0 = \<lparr>environ = [''VIRAL_NGS_METADATA_PATH'' \<mapsto> ''/md''],
             fs = [''a.txt'' \<mapsto> file0,
                   ''b.txt'' \<mapsto> file0\<lparr>st_mtime := 99, st_uid := 7\<rparr>,
                   ''ro.txt'' \<mapsto> file0\<lparr>writable := False\<rparr>,
                   ''secret'' \<mapsto> file0\<lparr>readable := False\<rparr>,
                   ''dir'' \<mapsto> file0\<lparr>kind := Directory, content := []\<rparr>],
             creatable = (\<lambda>p. p \<noteq> ''/ro/new''), passwd = [0 \<mapsto> ''root''], euid = 0,
             now = 100, store = Map.empty, store_writable = (\<lambda>p. True)\<rparr>"

text \<open>The same world with VIRAL_NGS_SKIP_CMD set as well.\<close>

definition world_skip :: world where
  "world_skip = world0\<lparr>environ := (environ world0)(''VIRAL_NGS_SKIP_CMD'' \<mapsto> ''1'')\<rparr>"

text \<open>The same world with tracking switched off.\<close>

definition world_off :: world where
  "world_off = world0\<lparr>environ := Map.empty\<rparr>"

text \<open>Collaborators that all raise, and a serialiser that rejects every document.\<close>

definition ext_failing :: ext where
  "ext_failing = ext0\<lparr>getuser := Inl (OSError ''getuser''), getcwd := Inl (OSError ''getcwd''),
                      string_to_file_name := (\<lambda>s. Inl (OSError ''name'')),
                      run_and_print := (\<lambda>c. Inl (OSError ''git'')),
                      get_version := Inl (OSError ''version''),
                      get_project_path := Inl (OSError ''path''),
                      platform_platform := Inl (OSError ''platform''),
                      available_cpu_count := Inl (OSError ''cpus''),
                      getfqdn := Inl (OSError ''fqdn''),
                      digest := (\<lambda>alg bs. Inl (IOError ''read'')),
                      json_serializable := (\<lambda>d. False)\<rparr>"

text \<open>
  Command bodies: one that writes its output file and returns None, one that returns
  without writing anything, one that raises an Exception after advancing the clock, and
  one that leaves through \<open>sys.exit\<close>.
\<close>

definition body_ok :: "(string \<times> pyval) list \<Rightarrow> world \<Rightarrow> outcome \<times> world" where
  "body_ok a w =
     (Returned PNone,
      w\<lparr>fs := (fs w)(''out.txt'' \<mapsto> file0\<lparr>content := [1, 2, 3], st_mtime := now w\<rparr>),
        now := now w + 5\<rparr>)"

definition body_idle :: "(string \<times> pyval) list \<Rightarrow> world \<Rightarrow> outcome \<times> world" where
  "body_idle a w = (Returned (PStr ''done''), w\<lparr>now := now w + 1\<rparr>)"

definition body_raise :: "(string \<times> pyval) list \<Rightarrow> world \<Rightarrow> outcome \<times> world" where
  "body_raise a w = (Raised (Exception (IOError ''boom'')), w\<lparr>now := now w + 1\<rparr>)"

definition body_exit :: "(string \<times> pyval) list \<Rightarrow> world \<Rightarrow> outcome \<times> world" where
  "body_exit a w = (Raised (BaseException ''SystemExit''), w)"

text \<open>
  A body that raises an instance of its own Exception subclass whose \<open>__len__\<close>
  returns 0, for example an error that carries an empty list of failed items.
\<close>

definition body_falsy :: "(string \<times> pyval) list \<Rightarrow> world \<Rightarrow> outcome \<times> world" where
  "body_falsy a w = (Raised (Exception (CustomError False ''no items'')), w\<lparr>now := now w + 1\<rparr>)"

text \<open>Parsed arguments: one input file, one output file, one plain option.\<close>

definition args_ex :: "(string \<times> pyval) list" where
  "args_ex = [(''inp'', PFileArg InFile ''a.txt''), (''out'', PFileArg OutFile ''out.txt''),
              (''threads'', PInt 4), (''metadata'', PNone), (''func_main'', PObject ''main'')]"

text \<open>The key under which the step of these inputs is stored.\<close>

definition path_ex :: string where
  "path_ex = ''/md/171104093000__ilya__work__u1__mod__cmd.json''"

subsection \<open>What a file entry of the persisted document holds\<close>

text \<open>
  An entry with identity and statistics: the \<open>hash\<close> key holds what the Hasher returned
  (possibly the empty string); \<open>size\<close>, \<open>mtime\<close> and \<open>ctime\<close> are present exactly when
  os.stat succeeds on the file, and \<open>owner\<close> when, in addition, the password database
  knows the file's uid.
\<close>

definition identity_and_stat_fields :: "ext \<Rightarrow> world \<Rightarrow> file_info \<Rightarrow> bool" where
  "identity_and_stat_fields x w fi =
     ((case Hasher_call x (Hasher_init ''sha1'') w (fname fi) of
         Inl e \<Rightarrow> False
       | Inr h \<Rightarrow> hash fi = Some h)
      \<and> (case os_stat w (fname fi) of
            Inl e \<Rightarrow> size_f fi = None \<and> mtime fi = None \<and> ctime fi = None \<and> owner fi = None
          | Inr st \<Rightarrow>
              size_f fi = Some (int (length (content st)))
              \<and> mtime fi = Some (st_mtime st)
              \<and> ctime fi = Some (st_ctime st)
              \<and> owner fi = (case getpwuid w (st_uid st) of Inl e \<Rightarrow> None | Inr nm \<Rightarrow> Some nm)))"

text \<open>An entry with path information only.\<close>

definition path_fields_only :: "file_info \<Rightarrow> bool" where
  "path_fields_only fi =
     (hash fi = None \<and> size_f fi = None \<and> mtime fi = None \<and> ctime fi = None \<and> owner fi = None)"

text \<open>
  The document that the run of \<open>body_ok\<close> on \<open>args_ex\<close> in \<open>world0\<close> persists, and
  the entry of an output file that does not exist when the step is recorded.
\<close>

definition doc_ok :: step_data where
  "doc_ok =
     \<lparr>format = ''1.0.0'',
      step = \<lparr>step_id = ''171104093000__ilya__work__u1__mod__cmd'',
               run_id = ''171104093000__ilya__work__u0'',
               cmd_module = ''mod'', cmd_name = ''cmd'',
               version_info = \<lparr>viral_ngs_version = ''v1'', viral_ngs_path = ''/proj'',
                                viral_ngs_path_real = ''/proj'', code_hash = ''c0de''\<rparr>,
               run_env = \<lparr>env_metadata_dir = ''/md'', platform = ''Linux'', cpus = 4,
                           host = ''node1'', user = ''ilya'', cwd = ''/work''\<rparr>,
               run_info = \<lparr>beg_time = 100, end_time = 105, duration = 5, exception = None,
                            argv = [''cmd''], cmd_was_skipped = False\<rparr>,
               args = [(''inp'', PFileArg InFile ''a.txt''),
                       (''out'', PFileArg OutFile ''out.txt''), (''threads'', PInt 4)],
               metadata_from_cmd_line = PMapping [],
               metadata_from_cmd_return = []\<rparr>,
      in_files = [''inp'' \<mapsto>
                   \<lparr>fname = ''a.txt'', realpath = ''a.txt'', abspath = ''a.txt'',
                    arg = ''inp'', arg_idx = [], hash = Some ''sha1_beef'', size_f = Some 2,
                    mtime = Some 10, ctime = Some 10, owner = Some ''root''\<rparr>],
      out_files = [''out'' \<mapsto>
                    \<lparr>fname = ''out.txt'', realpath = ''out.txt'', abspath = ''out.txt'',
                     arg = ''out'', arg_idx = [], hash = Some ''sha1_beef'', size_f = Some 3,
                     mtime = Some 100, ctime = Some 10, owner = Some ''root''\<rparr>]\<rparr>"

definition out_missing :: file_info where
  "out_missing =
     \<lparr>fname = ''out.txt'', realpath = ''out.txt'', abspath = ''out.txt'', arg = ''out'',
      arg_idx = [], hash = Some [], size_f = None, mtime = None, ctime = None,
      owner = None\<rparr>"

text \<open>
  The documents persisted in \<open>world0\<close> when the body raises an Exception, when it
  returns without writing its output file, when it leaves through \<open>sys.exit\<close>, and in
  \<open>world_skip\<close>, where the body is not run.
\<close>

definition doc_raise :: step_data where
  "doc_raise =
     doc_ok\<lparr>step := (step doc_ok)\<lparr>run_info := (run_info (step doc_ok))
                 \<lparr>end_time := 101, duration := 1, exception := Some ''Traceback''\<rparr>\<rparr>,
            out_files := [''out'' \<mapsto> out_missing\<lparr>hash := None\<rparr>]\<rparr>"

definition doc_idle :: step_data where
  "doc_idle =
     doc_ok\<lparr>step := (step doc_ok)\<lparr>run_info := (run_info (step doc_ok))
                 \<lparr>end_time := 101, duration := 1\<rparr>\<rparr>,
            out_files := [''out'' \<mapsto> out_missing]\<rparr>"

definition doc_exit :: step_data where
  "doc_exit =
     doc_ok\<lparr>step := (step doc_ok)\<lparr>run_info := (run_info (step doc_ok))
                 \<lparr>end_time := 100, duration := 0\<rparr>\<rparr>,
            out_files := [''out'' \<mapsto> out_missing]\<rparr>"

definition doc_skip :: step_data where
  "doc_skip =
     doc_ok\<lparr>step := (step doc_ok)\<lparr>run_info := (run_info (step doc_ok))
                 \<lparr>end_time := 100, duration := 0, cmd_was_skipped := True\<rparr>\<rparr>,
            out_files := [''out'' \<mapsto> out_missing]\<rparr>"


text \<open>
  The state of the two port dicts that the loops keep: every input entry has identity
  and statistics, and every output entry has them when no Exception was caught and has
  path information only when one was.
\<close>

definition entries_ok :: "ext \<Rightarrow> world \<Rightarrow> error option \<Rightarrow> step_data \<Rightarrow> bool" where
  "entries_ok x w ce sd =
     ((\<forall>port fi. in_files sd port = Some fi \<longrightarrow> identity_and_stat_fields x w fi)
      \<and> (\<forall>port fi. out_files sd port = Some fi \<longrightarrow>
            (if ce = None then identity_and_stat_fields x w fi else path_fields_only fi)))"

text \<open>The port names of the file arguments among named values.\<close>

definition ports_of :: "(string \<times> pyval) list \<Rightarrow> string set" where
  "ports_of kvs =
     (\<Union>(a, v) \<in> set kvs. (\<lambda>(idx, c, p). port_name_of a idx) ` set (get_FileArgs v []))"

subsection \<open>What a step record contributes to the graph\<close>

text \<open>
  The rules of the graph builder, stated per record as sets: a step node; for each port
  entry a port node keyed by step identifier, two underscores and port name, with the
  edge from an input port to the step or from the step to an output port; and, when the
  entry has a non-empty identity, the file node keyed by that identity with the edge from
  the file to an input port or from an output port to the file.
\<close>

definition port_nodes :: "string \<Rightarrow> string \<times> attrs \<Rightarrow> string set" where
  "port_nodes sid pe =
     {sid @ ''__'' @ fst pe, sid}
     \<union> (case snd pe ''hash'' of None \<Rightarrow> {} | Some h \<Rightarrow> if h \<noteq> [] then {h} else {})"

definition port_edges :: "string \<Rightarrow> bool \<Rightarrow> string \<times> attrs \<Rightarrow> (string \<times> string) set" where
  "port_edges sid inp pe =
     {if inp then (sid @ ''__'' @ fst pe, sid) else (sid, sid @ ''__'' @ fst pe)}
     \<union> (case snd pe ''hash'' of
          None \<Rightarrow> {}
        | Some h \<Rightarrow>
            if h \<noteq> [] then {if inp then (h, sid @ ''__'' @ fst pe) else (sid @ ''__'' @ fst pe, h)}
            else {})"

definition record_nodes :: "step_record \<Rightarrow> string set" where
  "record_nodes r =
     (case sr_step r ''step_id'' of
        None \<Rightarrow> {}
      | Some sid \<Rightarrow>
          {sid} \<union> \<Union> (port_nodes sid ` set (sr_in_files r))
                \<union> \<Union> (port_nodes sid ` set (sr_out_files r)))"

definition record_edges :: "step_record \<Rightarrow> (string \<times> string) set" where
  "record_edges r =
     (case sr_step r ''step_id'' of
        None \<Rightarrow> {}
      | Some sid \<Rightarrow>
          \<Union> (port_edges sid True ` set (sr_in_files r))
          \<union> \<Union> (port_edges sid False ` set (sr_out_files r)))"

text \<open>The records of a directory listing that \<open>load\<close> reads: those of the \<open>.json\<close> entries.\<close>

definition loaded :: "(string \<times> (error + step_record)) list \<Rightarrow> step_record set" where
  "loaded es = {r. \<exists>f. (f, Inr r) \<in> set es \<and> endswith f ''.json''}"

text \<open>
  The identifiers of the step and port nodes of a record, the non-empty identities of its
  file occurrences, and whether a node carries the kind \<open>file\<close>.
\<close>

definition step_and_port_ids :: "step_record \<Rightarrow> string set" where
  "step_and_port_ids r =
     (case sr_step r ''step_id'' of
        None \<Rightarrow> {}
      | Some sid \<Rightarrow>
          {sid} \<union> (\<lambda>pe. sid @ ''__'' @ fst pe) ` set (sr_in_files r)
                \<union> (\<lambda>pe. sid @ ''__'' @ fst pe) ` set (sr_out_files r))"

definition identities :: "step_record \<Rightarrow> string set" where
  "identities r =
     {h. h \<noteq> [] \<and> (\<exists>pe \<in> set (sr_in_files r) \<union> set (sr_out_files r). snd pe ''hash'' = Some h)}"

definition is_file_node :: "graph \<Rightarrow> string \<Rightarrow> bool" where
  "is_file_node g n =
     (case nodes g n of None \<Rightarrow> False | Some a \<Rightarrow> a ''node_kind'' = Some ''file'')"

text \<open>An entry that \<open>load\<close> gets through: not a \<open>.json\<close> name, or a record it can add.\<close>

definition loadable :: "string \<times> (error + step_record) \<Rightarrow> bool" where
  "loadable e =
     (if endswith (fst e) ''.json'' then
        (case snd e of
           Inl err \<Rightarrow> False
         | Inr r \<Rightarrow> sr_step r ''step_id'' \<noteq> None \<and> ''node_kind'' \<notin> dom (sr_step r))
      else True)"

subsection \<open>Two stores\<close>

text \<open>
  Step A writes a file with identity \<open>sha1_x\<close>; step B reads a file with that identity
  and fails, so its output has no identity. Store \<open>/md\<close> holds both records and a file
  that is not a record; store \<open>/other\<close> holds one unrelated record.
\<close>

definition rec_A :: step_record where
  "rec_A = \<lparr>sr_step = [''step_id'' \<mapsto> ''A''], sr_in_files = [],
            sr_out_files = [(''out'', [''hash'' \<mapsto> ''sha1_x'', ''fname'' \<mapsto> ''x.txt''])]\<rparr>"

definition rec_B :: step_record where
  "rec_B = \<lparr>sr_step = [''step_id'' \<mapsto> ''B''],
            sr_in_files = [(''inp'', [''hash'' \<mapsto> ''sha1_x'', ''fname'' \<mapsto> ''copy.txt''])],
            sr_out_files = [(''out'', [''fname'' \<mapsto> ''y.txt''])]\<rparr>"

definition rec_C :: step_record where
  "rec_C = \<lparr>sr_step = [''step_id'' \<mapsto> ''C''], sr_in_files = [], sr_out_files = []\<rparr>"

definition entries_md :: "(string \<times> (error + step_record)) list" where
  "entries_md = [(''A.json'', Inr rec_A), (''notes.txt'', Inl (IOError ''notes.txt'')),
                 (''B.json'', Inr rec_B)]"

definition listdir_ex :: "string \<Rightarrow> error + (string \<times> (error + step_record)) list" where
  "listdir_ex p =
     (if p = ''/md'' then Inr entries_md
      else if p = ''/other'' then Inr [(''C.json'', Inr rec_C)]
      else Inl (OSError p))"

section \<open>Properties\<close>

lemma andthen_Inl: "andthen (Inl e) f = Inl e"
  by (simp add: andthen_def)

lemma andthen_Inr: "andthen (Inr v) f = f v"
  by (simp add: andthen_def)

subsection \<open>Content identity and the file capabilities\<close>

lemma Hasher_call_total: "\<exists>h. Hasher_call x self w file = Inr h"
  by (simp add: Hasher_call_def split: sum.split)

lemma Hasher_call_regular:
  assumes "fs w file = Some n" "kind n = Regular" "readable n"
  shows "Hasher_call x self w file =
           Inr (case digest x (hash_algorithm self) (content n) of
                  Inl e \<Rightarrow> [] | Inr d \<Rightarrow> hash_algorithm self @ ''_'' @ d)"
  using assms
  by (simp add: Hasher_call_def Hasher_try_def os_path_isfile_def os_stat_def S_ISFIFO_def
        hash_file_def andthen_def split: sum.split)

lemma Hasher_call_not_regular:
  assumes "\<not> os_path_isfile w file"
  shows "Hasher_call x self w file = Inr []"
  using assms by (simp add: Hasher_call_def Hasher_try_def)

lemma Hasher_call_io_failure:
  assumes "hash_file x w file (hash_algorithm self) = Inl e"
  shows "Hasher_call x self w file = Inr []"
  using assms
  by (simp add: Hasher_call_def Hasher_try_def os_stat_def andthen_def os_path_isfile_def
      split: sum.split option.split)

text \<open>
  Claim C6. \<open>Hasher.__call__\<close> never raises: it always returns a string. Two regular
  files that can be read and hold the same bytes get the same identity, whatever their
  paths, modification times or owners, and that identity is the algorithm name, an
  underscore and the digest of the bytes. A path that is not an existing regular file
  (missing, a directory, a named pipe) gets the empty string, and so does a file whose
  hashing fails with an I/O error.
\<close>

theorem Hasher_identity:
  "(\<exists>h. Hasher_call x self w1 f1 = Inr h)
   \<and> (\<forall>n1 n2. fs w1 f1 = Some n1 \<and> fs w2 f2 = Some n2
         \<and> kind n1 = Regular \<and> kind n2 = Regular
         \<and> readable n1 \<and> readable n2 \<and> content n1 = content n2
       \<longrightarrow> Hasher_call x self w1 f1 = Hasher_call x self w2 f2)
   \<and> (\<forall>n d. fs w1 f1 = Some n \<and> kind n = Regular \<and> readable n
         \<and> digest x (hash_algorithm self) (content n) = Inr d
       \<longrightarrow> Hasher_call x self w1 f1 = Inr (hash_algorithm self @ ''_'' @ d))
   \<and> (\<not> os_path_isfile w1 f1 \<longrightarrow> Hasher_call x self w1 f1 = Inr [])
   \<and> (\<forall>e. hash_file x w1 f1 (hash_algorithm self) = Inl e
       \<longrightarrow> Hasher_call x self w1 f1 = Inr [])"
  using Hasher_call_total Hasher_call_not_regular Hasher_call_io_failure
  by (auto simp: Hasher_call_regular)

theorem Hasher_identity_witness:
  "Hasher_call ext0 (Hasher_init ''sha1'') world0 ''a.txt''
     = Hasher_call ext0 (Hasher_init ''sha1'') world0 ''b.txt''
   \<and> Hasher_call ext0 (Hasher_init ''sha1'') world0 ''a.txt'' = Inr ''sha1_beef''
   \<and> Hasher_call ext0 (Hasher_init ''sha1'') world0 ''dir'' = Inr []
   \<and> Hasher_call ext0 (Hasher_init ''sha1'') world0 ''missing'' = Inr []
   \<and> Hasher_call ext0 (Hasher_init ''sha1'') world0 ''secret'' = Inr []"
proof -
  have a: "fs world0 ''a.txt'' = Some file0"
    by (simp add: world0_def)
  have b: "fs world0 ''b.txt'' = Some (file0\<lparr>st_mtime := 99, st_uid := 7\<rparr>)"
    by (simp add: world0_def)
  have f: "kind file0 = Regular" "readable file0" "content file0 = [104, 105]"
    by (simp_all add: file0_def)
  have d: "digest ext0 (hash_algorithm (Hasher_init ''sha1'')) [104, 105] = Inr ''beef''"
    by (simp add: ext0_def)
  have same: "Hasher_call ext0 (Hasher_init ''sha1'') world0 ''a.txt''
                = Hasher_call ext0 (Hasher_init ''sha1'') world0 ''b.txt''"
    using Hasher_identity [of ext0 "Hasher_init ''sha1''" world0 "''a.txt''" world0 "''b.txt''"]
      a b f by simp
  have val: "Hasher_call ext0 (Hasher_init ''sha1'') world0 ''a.txt'' = Inr ''sha1_beef''"
    using Hasher_identity [of ext0 "Hasher_init ''sha1''" world0 "''a.txt''"] a f d
    by (simp add: Hasher_init_def)
  have dir: "Hasher_call ext0 (Hasher_init ''sha1'') world0 ''dir'' = Inr []"
    using Hasher_identity [of ext0 "Hasher_init ''sha1''" world0 "''dir''"]
    by (simp add: os_path_isfile_def world0_def file0_def)
  have missing: "Hasher_call ext0 (Hasher_init ''sha1'') world0 ''missing'' = Inr []"
    using Hasher_identity [of ext0 "Hasher_init ''sha1''" world0 "''missing''"]
    by (simp add: os_path_isfile_def world0_def)
  have secret: "Hasher_call ext0 (Hasher_init ''sha1'') world0 ''secret'' = Inr []"
    using Hasher_identity [of ext0 "Hasher_init ''sha1''" world0 "''secret''"]
    by (simp add: hash_file_def world0_def file0_def)
  from same val dir missing secret show ?thesis by simp
qed



text \<open>
  Claim C8 as stated fails: \<open>OutFile.__new__\<close> makes its checks only when
  VIRAL_NGS_SKIP_CMD is not in the environment. With the variable set and tracking
  enabled, construction over an existing directory and over an existing read-only file
  succeeds.
\<close>

theorem OutFile_skip_counterexample:
  "is_metadata_tracking_enabled world_skip
   \<and> os_path_exists world_skip ''dir''
   \<and> \<not> os_path_isfile world_skip ''dir''
   \<and> os_path_exists world_skip ''ro.txt''
   \<and> \<not> os_access_W_OK world_skip ''ro.txt''
   \<and> fst (module_OutFile world_skip world_skip ''dir'') = Inr (PFileArg OutFile ''dir'')
   \<and> fst (module_OutFile world_skip world_skip ''ro.txt'') = Inr (PFileArg OutFile ''ro.txt'')"
  by (simp add: is_metadata_tracking_enabled_def world_skip_def world0_def file0_def
      module_OutFile_def OutFile_new_def os_path_exists_def os_path_isfile_def
      os_access_W_OK_def FileArg_new_def)

text \<open>
  Claim C8, amended. With tracking enabled when the module is imported and
  VIRAL_NGS_SKIP_CMD absent: over an existing path construction fails unless the path is
  a regular, writable file, and the world is unchanged either way; over a path that does
  not exist and can be created, an empty regular file is created there and removed again,
  construction succeeds and the world is what it was (the path still does not exist);
  over a path that does not exist and cannot be created, construction fails. With
  VIRAL_NGS_SKIP_CMD present nothing is checked or probed and construction succeeds.
\<close>

theorem OutFile_construction:
  assumes "is_metadata_tracking_enabled imp"
  shows "(''VIRAL_NGS_SKIP_CMD'' \<notin> dom (environ w) \<and> os_path_exists w p
            \<longrightarrow> snd (module_OutFile imp w p) = w
              \<and> (if os_path_isfile w p \<and> os_access_W_OK w p
                 then fst (module_OutFile imp w p) = Inr (PFileArg OutFile p)
                 else \<exists>e. fst (module_OutFile imp w p) = Inl e))
       \<and> (''VIRAL_NGS_SKIP_CMD'' \<notin> dom (environ w) \<and> \<not> os_path_exists w p \<and> creatable w p
            \<longrightarrow> (\<exists>w1. open_write w p = Inr w1 \<and> os_path_isfile w1 p
                       \<and> content (the (fs w1 p)) = [] \<and> os_unlink w1 p = Inr w)
              \<and> module_OutFile imp w p = (Inr (PFileArg OutFile p), w))
       \<and> (''VIRAL_NGS_SKIP_CMD'' \<notin> dom (environ w) \<and> \<not> os_path_exists w p \<and> \<not> creatable w p
            \<longrightarrow> (\<exists>e. module_OutFile imp w p = (Inl e, w)))
       \<and> (''VIRAL_NGS_SKIP_CMD'' \<in> dom (environ w)
            \<longrightarrow> module_OutFile imp w p = (Inr (PFileArg OutFile p), w))"
  using assms
  by (auto simp: module_OutFile_def OutFile_new_def os_path_exists_def os_path_isfile_def
      os_access_W_OK_def FileArg_new_def open_write_def os_unlink_def fun_upd_idem)

theorem OutFile_construction_witness:
  "is_metadata_tracking_enabled world0
   \<and> module_OutFile world0 world0 ''new.txt'' = (Inr (PFileArg OutFile ''new.txt''), world0)
   \<and> module_OutFile world0 world0 ''a.txt'' = (Inr (PFileArg OutFile ''a.txt''), world0)
   \<and> (\<exists>e. fst (module_OutFile world0 world0 ''ro.txt'') = Inl e)
   \<and> (\<exists>e. fst (module_OutFile world0 world0 ''dir'') = Inl e)
   \<and> (\<exists>e. module_OutFile world0 world0 ''/ro/new'' = (Inl e, world0))"
proof -
  have en: "is_metadata_tracking_enabled world0"
    by (simp add: is_metadata_tracking_enabled_def world0_def)
  have ns: "''VIRAL_NGS_SKIP_CMD'' \<notin> dom (environ world0)"
    by (simp add: world0_def)
  have new: "\<not> os_path_exists world0 ''new.txt''" "creatable world0 ''new.txt''"
    by (simp_all add: os_path_exists_def world0_def)
  have a: "os_path_exists world0 ''a.txt''" "os_path_isfile world0 ''a.txt''"
      "os_access_W_OK world0 ''a.txt''"
    by (simp_all add: os_path_exists_def os_path_isfile_def os_access_W_OK_def world0_def file0_def)
  have ro: "os_path_exists world0 ''ro.txt''" "\<not> os_access_W_OK world0 ''ro.txt''"
    by (simp_all add: os_path_exists_def os_access_W_OK_def world0_def file0_def)
  have dir: "os_path_exists world0 ''dir''" "\<not> os_path_isfile world0 ''dir''"
    by (simp_all add: os_path_exists_def os_path_isfile_def world0_def file0_def)
  have nc: "\<not> os_path_exists world0 ''/ro/new''" "\<not> creatable world0 ''/ro/new''"
    by (simp_all add: os_path_exists_def world0_def)
  have 1: "module_OutFile world0 world0 ''new.txt'' = (Inr (PFileArg OutFile ''new.txt''), world0)"
    using OutFile_construction [OF en, of world0 "''new.txt''"] ns new by simp
  have 2: "module_OutFile world0 world0 ''a.txt'' = (Inr (PFileArg OutFile ''a.txt''), world0)"
    using OutFile_construction [OF en, of world0 "''a.txt''"] ns a by (simp add: prod_eq_iff)
  have 3: "\<exists>e. fst (module_OutFile world0 world0 ''ro.txt'') = Inl e"
    using OutFile_construction [OF en, of world0 "''ro.txt''"] ns ro by simp
  have 4: "\<exists>e. fst (module_OutFile world0 world0 ''dir'') = Inl e"
    using OutFile_construction [OF en, of world0 "''dir''"] ns dir by simp
  have 5: "\<exists>e. module_OutFile world0 world0 ''/ro/new'' = (Inl e, world0)"
    using OutFile_construction [OF en, of world0 "''/ro/new''"] ns nc by simp
  from en 1 2 3 4 5 show ?thesis by simp
qed

subsection \<open>The loops over the file arguments\<close>

lemma andthen_eq_Inr: "(andthen m f = Inr y) = (\<exists>v. m = Inr v \<and> f v = Inr y)"
  by (cases m) (simp_all add: andthen_def)

lemma make_file_info_fields:
  assumes "make_file_info x w ce a idx c p = Inr fi"
  shows "fname fi = p \<and> arg fi = a \<and> arg_idx fi = idx
         \<and> (if c = InFile \<or> ce = None then identity_and_stat_fields x w fi
            else path_fields_only fi)"
proof (cases "c = InFile \<or> ce = None")
  case True
  obtain h where h: "Hasher_call x (Hasher_init ''sha1'') w p = Inr h"
    using Hasher_call_total by blast
  with True assms have fi: "fi = stat_update w p
      (\<lparr>fname = p, realpath = os_realpath x p, abspath = os_abspath x p,
        arg = a, arg_idx = idx, hash = Some h, size_f = None, mtime = None,
        ctime = None, owner = None\<rparr>)"
    by (auto simp: make_file_info_def andthen_def Let_def)
  show ?thesis
    using True h unfolding fi
    by (simp add: stat_update_def identity_and_stat_fields_def Let_def
        split: sum.split)
next
  case False
  with assms show ?thesis
    by (auto simp: make_file_info_def Let_def path_fields_only_def)
qed

lemma make_file_info_total: "\<exists>fi. make_file_info x w ce a idx c p = Inr fi"
proof -
  obtain h where h: "Hasher_call x (Hasher_init ''sha1'') w p = Inr h"
    using Hasher_call_total by blast
  then show ?thesis
    by (simp add: make_file_info_def andthen_def Let_def)
qed

lemma entries_ok_in:
  "entries_ok x w ce sd \<Longrightarrow> identity_and_stat_fields x w fi
   \<Longrightarrow> entries_ok x w ce (sd\<lparr>in_files := (in_files sd)(k \<mapsto> fi)\<rparr>)"
  unfolding entries_ok_def by (simp split: if_splits)

lemma entries_ok_out:
  "entries_ok x w ce sd
   \<Longrightarrow> (if ce = None then identity_and_stat_fields x w fi else path_fields_only fi)
   \<Longrightarrow> entries_ok x w ce (sd\<lparr>out_files := (out_files sd)(k \<mapsto> fi)\<rparr>)"
  unfolding entries_ok_def by (simp split: if_splits)

lemma record_files_keeps:
  assumes "record_files x w ce a xs sd = Inr sd'"
  shows "step sd' = step sd \<and> format sd' = format sd
         \<and> (entries_ok x w ce sd \<longrightarrow> entries_ok x w ce sd')
         \<and> dom (in_files sd) \<union> dom (out_files sd)
             \<union> (\<lambda>(idx, c, p). port_name_of a idx) ` set xs
           \<subseteq> dom (in_files sd') \<union> dom (out_files sd')"
  using assms
proof (induction xs arbitrary: sd)
  case Nil
  then show ?case by simp
next
  case (Cons t xs)
  obtain idx c p where t: "t = (idx, c, p)" by (cases t) auto
  define I where "I = (\<lambda>(idx, c, p). port_name_of a idx) ` set xs"
  define D' where "D' = dom (in_files sd') \<union> dom (out_files sd')"
  define D where "D = dom (in_files sd) \<union> dom (out_files sd)"
  have prem: "andthen (make_file_info x w ce a idx c p) (\<lambda>fi.
       record_files x w ce a xs
         (if c = InFile
          then sd\<lparr>in_files := (in_files sd)(port_name_of a idx \<mapsto> fi)\<rparr>
          else sd\<lparr>out_files := (out_files sd)(port_name_of a idx \<mapsto> fi)\<rparr>)) = Inr sd'"
    using Cons.prems unfolding t by simp
  then obtain fi where
    fi: "make_file_info x w ce a idx c p = Inr fi"
    and rest: "record_files x w ce a xs
         (if c = InFile
          then sd\<lparr>in_files := (in_files sd)(port_name_of a idx \<mapsto> fi)\<rparr>
          else sd\<lparr>out_files := (out_files sd)(port_name_of a idx \<mapsto> fi)\<rparr>) = Inr sd'"
    unfolding andthen_eq_Inr by blast
  note F = make_file_info_fields [OF fi]
  have img: "(\<lambda>(idx, c, p). port_name_of a idx) ` set (t # xs) = insert (port_name_of a idx) I"
    unfolding t I_def by simp
  show ?case
  proof (cases c)
    case InFile
    define sd1 where "sd1 = sd\<lparr>in_files := (in_files sd)(port_name_of a idx \<mapsto> fi)\<rparr>"
    have r: "record_files x w ce a xs sd1 = Inr sd'"
      using rest InFile unfolding sd1_def by simp
    note IH = Cons.IH [OF r]
    have fi_ok: "identity_and_stat_fields x w fi" using F InFile by simp
    have ok1: "entries_ok x w ce sd1" if "entries_ok x w ce sd"
      unfolding sd1_def using that fi_ok by (rule entries_ok_in)
    have st: "step sd1 = step sd" "format sd1 = format sd"
      unfolding sd1_def by simp_all
    have d1: "dom (in_files sd1) \<union> dom (out_files sd1) = insert (port_name_of a idx) D"
      unfolding sd1_def D_def by simp
    have a4: "insert (port_name_of a idx) D \<union> I \<subseteq> D'"
      using IH [THEN conjunct2, THEN conjunct2, THEN conjunct2]
      unfolding d1 I_def D'_def .
    have sub: "D \<union> insert (port_name_of a idx) I \<subseteq> D'"
      using a4 by blast
    show ?thesis
    proof (intro conjI)
      show "step sd' = step sd" using IH st by simp
      show "format sd' = format sd" using IH st by simp
      show "entries_ok x w ce sd \<longrightarrow> entries_ok x w ce sd'" using IH ok1 by blast
      show "dom (in_files sd) \<union> dom (out_files sd)
             \<union> (\<lambda>(idx, c, p). port_name_of a idx) ` set (t # xs)
           \<subseteq> dom (in_files sd') \<union> dom (out_files sd')"
        unfolding img using sub unfolding D_def D'_def .
    qed
  next
    case OutFile
    define sd1 where "sd1 = sd\<lparr>out_files := (out_files sd)(port_name_of a idx \<mapsto> fi)\<rparr>"
    have r: "record_files x w ce a xs sd1 = Inr sd'"
      using rest OutFile unfolding sd1_def by simp
    note IH = Cons.IH [OF r]
    have fi_ok: "if ce = None then identity_and_stat_fields x w fi else path_fields_only fi"
      using F OutFile by simp
    have ok1: "entries_ok x w ce sd1" if "entries_ok x w ce sd"
      unfolding sd1_def using that fi_ok by (rule entries_ok_out)
    have st: "step sd1 = step sd" "format sd1 = format sd"
      unfolding sd1_def by simp_all
    have d1: "dom (in_files sd1) \<union> dom (out_files sd1) = insert (port_name_of a idx) D"
      unfolding sd1_def D_def by simp
    have a4: "insert (port_name_of a idx) D \<union> I \<subseteq> D'"
      using IH [THEN conjunct2, THEN conjunct2, THEN conjunct2]
      unfolding d1 I_def D'_def .
    have sub: "D \<union> insert (port_name_of a idx) I \<subseteq> D'"
      using a4 by blast
    show ?thesis
    proof (intro conjI)
      show "step sd' = step sd" using IH st by simp
      show "format sd' = format sd" using IH st by simp
      show "entries_ok x w ce sd \<longrightarrow> entries_ok x w ce sd'" using IH ok1 by blast
      show "dom (in_files sd) \<union> dom (out_files sd)
             \<union> (\<lambda>(idx, c, p). port_name_of a idx) ` set (t # xs)
           \<subseteq> dom (in_files sd') \<union> dom (out_files sd')"
        unfolding img using sub unfolding D_def D'_def .
    qed
  qed
qed

lemma record_args_keeps:
  assumes "record_args x w ce kvs sd = Inr sd'"
  shows "step sd' = step sd \<and> format sd' = format sd
         \<and> (entries_ok x w ce sd \<longrightarrow> entries_ok x w ce sd')
         \<and> dom (in_files sd) \<union> dom (out_files sd) \<union> ports_of kvs
           \<subseteq> dom (in_files sd') \<union> dom (out_files sd')"
  using assms
proof (induction kvs arbitrary: sd)
  case Nil
  then show ?case by (simp add: ports_of_def)
next
  case (Cons kv kvs)
  obtain a v where kv: "kv = (a, v)" by (cases kv) auto
  from Cons.prems obtain sd1 where
    one: "record_files x w ce a (get_FileArgs v []) sd = Inr sd1"
    and rest: "record_args x w ce kvs sd1 = Inr sd'"
    unfolding kv by (auto simp: andthen_eq_Inr)
  note A = record_files_keeps [OF one]
  note B = Cons.IH [OF rest]
  have p: "ports_of (kv # kvs)
            = (\<lambda>(idx, c, p). port_name_of a idx) ` set (get_FileArgs v []) \<union> ports_of kvs"
    unfolding kv by (simp add: ports_of_def)
  show ?case
  proof (intro conjI)
    show "step sd' = step sd" using A B by simp
    show "format sd' = format sd" using A B by simp
    show "entries_ok x w ce sd \<longrightarrow> entries_ok x w ce sd'" using A B by blast
    show "dom (in_files sd) \<union> dom (out_files sd) \<union> ports_of (kv # kvs)
           \<subseteq> dom (in_files sd') \<union> dom (out_files sd')"
      unfolding p using A B by blast
  qed
qed

lemma record_args_total: "\<exists>sd'. record_args x w ce kvs sd = Inr sd'"
proof (induction kvs arbitrary: sd)
  case Nil
  then show ?case by simp
next
  case (Cons kv kvs)
  obtain a v where kv: "kv = (a, v)" by (cases kv) auto
  have files: "\<exists>sd1. record_files x w ce a xs sd0 = Inr sd1" for xs sd0
  proof (induction xs arbitrary: sd0)
    case Nil
    then show ?case by simp
  next
    case (Cons t xs)
    obtain idx c p where t: "t = (idx, c, p)" by (cases t) auto
    obtain fi where fi: "make_file_info x w ce a idx c p = Inr fi"
      using make_file_info_total by blast
    show ?case unfolding t using fi Cons.IH by (simp add: andthen_Inr)
  qed
  then obtain sd1 where "record_files x w ce a (get_FileArgs v []) sd = Inr sd1" by blast
  then show ?case unfolding kv using Cons.IH [of sd1] by (simp add: andthen_Inr)
qed

subsection \<open>What an assembled and persisted document holds\<close>

lemma whole_step_data_Inr:
  assumes "whole_step_data x cm cn ad beg ces cr w = Inr (sid, sd0)"
  shows "args (step sd0) = without ''func_main'' (without ''metadata'' ad)
     \<and> cmd_was_skipped (run_info (step sd0)) = (''VIRAL_NGS_SKIP_CMD'' \<in> dom (environ w))
     \<and> exception (run_info (step sd0)) = ces
     \<and> metadata_from_cmd_return (step sd0) = (case cr of PMapping kvs \<Rightarrow> kvs | _ \<Rightarrow> [])
     \<and> step_id (step sd0) = sid
     \<and> in_files sd0 = Map.empty \<and> out_files sd0 = Map.empty"
  using assms
  unfolding whole_step_data_def Let_def andthen_eq_Inr
  by (elim exE conjE) auto

lemma entries_ok_empty:
  "in_files sd = Map.empty \<Longrightarrow> out_files sd = Map.empty \<Longrightarrow> entries_ok x w ce sd"
  by (simp add: entries_ok_def)

lemma assemble_step_data_Inr:
  assumes "assemble_step_data x cm cn ad beg ce ces cr w = Inr (sid, sd)"
  shows "args (step sd) = without ''func_main'' (without ''metadata'' ad)
     \<and> cmd_was_skipped (run_info (step sd)) = (''VIRAL_NGS_SKIP_CMD'' \<in> dom (environ w))
     \<and> exception (run_info (step sd)) = ces
     \<and> metadata_from_cmd_return (step sd) = (case cr of PMapping kvs \<Rightarrow> kvs | _ \<Rightarrow> [])
     \<and> step_id (step sd) = sid
     \<and> entries_ok x w ce sd
     \<and> ports_of (args (step sd) @ metadata_from_cmd_return (step sd))
         \<subseteq> dom (in_files sd) \<union> dom (out_files sd)"
proof -
  from assms obtain sd0 where
    w: "whole_step_data x cm cn ad beg ces cr w = Inr (sid, sd0)"
    and r: "record_args x w ce (args (step sd0) @ metadata_from_cmd_return (step sd0)) sd0 = Inr sd"
    by (auto simp: assemble_step_data_def andthen_eq_Inr)
  note W = whole_step_data_Inr [OF w]
  note R = record_args_keeps [OF r]
  have e0: "entries_ok x w ce sd0"
    using W by (simp add: entries_ok_empty)
  have st: "step sd = step sd0" using R by simp
  have ok: "entries_ok x w ce sd" using R e0 by blast
  have ports: "ports_of (args (step sd0) @ metadata_from_cmd_return (step sd0))
         \<subseteq> dom (in_files sd) \<union> dom (out_files sd)"
    using R by blast
  show ?thesis
    unfolding st using W ok ports by simp
qed

lemma record_metadata_Inr:
  assumes "record_metadata x cm cn ad beg ce ces cr w = Inr w'"
  shows "\<exists>sid sd md. assemble_step_data x cm cn ad beg ce ces cr w = Inr (sid, sd)
           \<and> metadata_dir w = Inr md
           \<and> w' = w\<lparr>store := (store w)(os_path_join md (sid @ ''.json'') \<mapsto> sd)\<rparr>"
  using assms
  by (auto simp: record_metadata_def andthen_eq_Inr json_dumps_def dump_file_def
      split: if_splits)

subsection \<open>What the invoker of the wrapper observes\<close>

lemma delattr_metadata:
  "map_of args0 ''metadata'' = Some m \<Longrightarrow> delattr args0 ''metadata'' = Inr (without ''metadata'' args0)"
  by (simp add: delattr_def)

lemma call_counted_fst:
  "fst (call_counted cmd_main a w 0) = call_cmd_main cmd_main a w"
  by (simp add: call_cmd_main_def)

lemma call_counted_snd:
  "snd (call_counted cmd_main a w n) =
     (if ''VIRAL_NGS_SKIP_CMD'' \<notin> dom (environ w) then Suc n else n)"
  by (simp add: call_counted_def)

lemma wrapper_result:
  assumes "map_of args0 ''metadata'' = Some m"
  shows "result (run_cmd_with_tracking x cm cn cmd_main args0 w0) =
           (case fst (call_cmd_main cmd_main (without ''metadata'' args0) w0) of
              Raised (Exception e) \<Rightarrow> if exception_truthy e then Inl (Exception e) else Inr PNone
            | Raised (BaseException b) \<Rightarrow> Inl (BaseException b)
            | Returned v \<Rightarrow> Inr PNone)"
  using delattr_metadata [OF assms]
  by (simp add: run_cmd_with_tracking_def Let_def caught_def call_counted_fst
      split: outcome.split raised.split)

lemma wrapper_body_runs:
  assumes "map_of args0 ''metadata'' = Some m"
  shows "body_runs (run_cmd_with_tracking x cm cn cmd_main args0 w0) =
           (if ''VIRAL_NGS_SKIP_CMD'' \<notin> dom (environ w0) then 1 else 0)"
  using delattr_metadata [OF assms]
  by (simp add: run_cmd_with_tracking_def Let_def call_counted_snd)

lemma wrapper_final:
  assumes "map_of args0 ''metadata'' = Some m"
    and "called = call_cmd_main cmd_main (without ''metadata'' args0) w0"
  shows "final (run_cmd_with_tracking x cm cn cmd_main args0 w0) =
           (if is_metadata_tracking_enabled (snd called) then
              (case record_metadata x cm cn args0 (now w0) (caught (fst called))
                      (map_option (format_exc x) (caught (fst called)))
                      (case fst called of Returned v \<Rightarrow> v | _ \<Rightarrow> PNone) (snd called) of
                 Inl e \<Rightarrow> snd called
               | Inr w' \<Rightarrow> w')
            else snd called)"
  unfolding assms(2) call_cmd_main_def using delattr_metadata [OF assms(1)]
  by (simp add: run_cmd_with_tracking_def Let_def)

lemma wrapper_frame:
  assumes "map_of args0 ''metadata'' = Some m"
    and "called = call_cmd_main cmd_main (without ''metadata'' args0) w0"
    and "obs = run_cmd_with_tracking x cm cn cmd_main args0 w0"
  shows "final obs = (snd called)\<lparr>store := store (final obs)\<rparr>"
proof -
  note F = wrapper_final [OF assms(1,2), of x cm cn]
  show ?thesis
  proof (cases "is_metadata_tracking_enabled (snd called)")
    case False
    then show ?thesis unfolding assms(3) F by simp
  next
    case True
    show ?thesis
    proof (cases "record_metadata x cm cn args0 (now w0) (caught (fst called))
                      (map_option (format_exc x) (caught (fst called)))
                      (case fst called of Returned v \<Rightarrow> v | _ \<Rightarrow> PNone) (snd called)")
      case (Inl e)
      then show ?thesis unfolding assms(3) F using True by simp
    next
      case (Inr w')
      from record_metadata_Inr [OF Inr] obtain sid sd md where
        "w' = (snd called)\<lparr>store := (store (snd called))(os_path_join md (sid @ ''.json'') \<mapsto> sd)\<rparr>"
        by blast
      then show ?thesis unfolding assms(3) F using True Inr by simp
    qed
  qed
qed

lemma wrapper_new_document:
  assumes "map_of args0 ''metadata'' = Some m"
    and "called = call_cmd_main cmd_main (without ''metadata'' args0) w0"
    and "obs = run_cmd_with_tracking x cm cn cmd_main args0 w0"
    and "store (final obs) p = Some d"
    and "store (snd called) p \<noteq> Some d"
  shows "is_metadata_tracking_enabled (snd called)
       \<and> (\<exists>sid. assemble_step_data x cm cn args0 (now w0) (caught (fst called))
                      (map_option (format_exc x) (caught (fst called)))
                      (case fst called of Returned v \<Rightarrow> v | _ \<Rightarrow> PNone) (snd called) = Inr (sid, d))"
proof -
  note F = wrapper_final [OF assms(1,2), of x cm cn]
  have en: "is_metadata_tracking_enabled (snd called)"
  proof (rule ccontr)
    assume "\<not> is_metadata_tracking_enabled (snd called)"
    then have "final obs = snd called" unfolding assms(3) F by simp
    with assms(4,5) show False by simp
  qed
  show ?thesis
  proof (cases "record_metadata x cm cn args0 (now w0) (caught (fst called))
                      (map_option (format_exc x) (caught (fst called)))
                      (case fst called of Returned v \<Rightarrow> v | _ \<Rightarrow> PNone) (snd called)")
    case (Inl e)
    then have "final obs = snd called" unfolding assms(3) F using en by simp
    with assms(4,5) show ?thesis by simp
  next
    case (Inr w')
    from record_metadata_Inr [OF Inr] obtain sid sd md where
      a: "assemble_step_data x cm cn args0 (now w0) (caught (fst called))
                      (map_option (format_exc x) (caught (fst called)))
                      (case fst called of Returned v \<Rightarrow> v | _ \<Rightarrow> PNone) (snd called) = Inr (sid, sd)"
      and w': "w' = (snd called)\<lparr>store := (store (snd called))(os_path_join md (sid @ ''.json'') \<mapsto> sd)\<rparr>"
      by blast
    have "final obs = w'" unfolding assms(3) F using en Inr by simp
    with assms(4,5) w' have "d = sd"
      by (auto split: if_splits)
    with a en show ?thesis by blast
  qed
qed

subsection \<open>The wrapper at the concrete inputs\<close>

lemmas recorder_defs =
  whole_step_data_def assemble_step_data_def metadata_dir_def
  create_run_id_def andthen_def tag_code_version_def run_cmd_def os_path_isdir_def
  os_path_join_def Let_def make_file_info_def Hasher_call_def
  Hasher_try_def Hasher_init_def stat_update_def os_stat_def getpwuid_def hash_file_def
  os_path_isfile_def S_ISFIFO_def port_name_of_def without_def VIRAL_NGS_METADATA_FORMAT_def

lemmas example_defs =
  ext0_def world0_def file0_def args_ex_def doc_ok_def out_missing_def

lemmas wrapper_eval =
  metadata_dir_def json_dumps_def dump_file_def os_path_join_def path_ex_def
  andthen_def dom_def

lemma assemble_ok:
  "assemble_step_data ext0 ''mod'' ''cmd'' args_ex 100 None None PNone (snd (body_ok [] world0))
     = Inr (''171104093000__ilya__work__u1__mod__cmd'', doc_ok)"
  by (simp add: recorder_defs example_defs body_ok_def  )

lemma run_ok:
  "run_cmd_with_tracking ext0 ''mod'' ''cmd'' body_ok args_ex world0
     = \<lparr>result = Inr PNone,
        final = (snd (body_ok [] world0))\<lparr>store := [path_ex \<mapsto> doc_ok]\<rparr>,
        body_runs = 1\<rparr>"
proof -
  have b: "body_ok (without ''metadata'' args_ex) world0 = body_ok [] world0"
    "fst (body_ok [] world0) = Returned PNone"
    "environ (snd (body_ok [] world0)) = environ world0"
    "store (snd (body_ok [] world0)) = Map.empty"
    "store_writable (snd (body_ok [] world0)) = (\<lambda>p. True)"
    by (simp_all add: body_ok_def world0_def )
  have c: "map_of args_ex ''metadata'' = Some PNone" "now world0 = 100"
    "environ world0 ''VIRAL_NGS_METADATA_PATH'' = Some ''/md''"
    "store world0 = Map.empty" "store_writable world0 = (\<lambda>p. True)"
    "json_serializable ext0 = (\<lambda>d. True)" "format_exc ext0 = (\<lambda>e. ''Traceback'')"
    by (simp_all add: args_ex_def world0_def ext0_def )
  have d: "environ world0 ''VIRAL_NGS_SKIP_CMD'' = None"
    by (simp add: world0_def )
  show ?thesis
    unfolding run_cmd_with_tracking_def delattr_def call_cmd_main_def call_counted_def caught_def
      is_metadata_tracking_enabled_def record_metadata_def
    by (simp add: b c d assemble_ok wrapper_eval)
qed

lemma assemble_raise:
  "assemble_step_data ext0 ''mod'' ''cmd'' args_ex 100 (Some (IOError ''boom'')) (Some ''Traceback'') PNone (snd (body_raise [] world0))
     = Inr (''171104093000__ilya__work__u1__mod__cmd'', doc_raise)"
  by (simp add: recorder_defs example_defs body_raise_def  doc_raise_def)

lemma run_raise:
  "run_cmd_with_tracking ext0 ''mod'' ''cmd'' body_raise args_ex world0
     = \<lparr>result = Inl (Exception (IOError ''boom'')),
        final = (snd (body_raise [] world0))\<lparr>store := [path_ex \<mapsto> doc_raise]\<rparr>,
        body_runs = 1\<rparr>"
proof -
  have b: "body_raise (without ''metadata'' args_ex) world0 = body_raise [] world0"
    "fst (body_raise [] world0) = Raised (Exception (IOError ''boom''))"
    "environ (snd (body_raise [] world0)) = environ world0"
    "store (snd (body_raise [] world0)) = Map.empty"
    "store_writable (snd (body_raise [] world0)) = (\<lambda>p. True)"
    by (simp_all add: body_raise_def world0_def )
  have c: "map_of args_ex ''metadata'' = Some PNone" "now world0 = 100"
    "environ world0 ''VIRAL_NGS_METADATA_PATH'' = Some ''/md''"
    "store world0 = Map.empty" "store_writable world0 = (\<lambda>p. True)"
    "json_serializable ext0 = (\<lambda>d. True)" "format_exc ext0 = (\<lambda>e. ''Traceback'')"
    by (simp_all add: args_ex_def world0_def ext0_def )
  have d: "environ world0 ''VIRAL_NGS_SKIP_CMD'' = None"
    by (simp add: world0_def )
  show ?thesis
    unfolding run_cmd_with_tracking_def delattr_def call_cmd_main_def call_counted_def caught_def
      is_metadata_tracking_enabled_def record_metadata_def
    by (simp add: b c d assemble_raise wrapper_eval)
qed

lemma assemble_falsy:
  "assemble_step_data ext0 ''mod'' ''cmd'' args_ex 100 (Some (CustomError False ''no items'')) (Some ''Traceback'') PNone (snd (body_falsy [] world0))
     = Inr (''171104093000__ilya__work__u1__mod__cmd'', doc_raise)"
  by (simp add: recorder_defs example_defs body_falsy_def doc_raise_def)

lemma run_falsy:
  "run_cmd_with_tracking ext0 ''mod'' ''cmd'' body_falsy args_ex world0
     = \<lparr>result = Inr PNone,
        final = (snd (body_falsy [] world0))\<lparr>store := [path_ex \<mapsto> doc_raise]\<rparr>,
        body_runs = 1\<rparr>"
proof -
  have b: "body_falsy (without ''metadata'' args_ex) world0 = body_falsy [] world0"
    "fst (body_falsy [] world0) = Raised (Exception (CustomError False ''no items''))"
    "environ (snd (body_falsy [] world0)) = environ world0"
    "store (snd (body_falsy [] world0)) = Map.empty"
    "store_writable (snd (body_falsy [] world0)) = (\<lambda>p. True)"
    by (simp_all add: body_falsy_def world0_def )
  have c: "map_of args_ex ''metadata'' = Some PNone" "now world0 = 100"
    "environ world0 ''VIRAL_NGS_METADATA_PATH'' = Some ''/md''"
    "store world0 = Map.empty" "store_writable world0 = (\<lambda>p. True)"
    "json_serializable ext0 = (\<lambda>d. True)" "format_exc ext0 = (\<lambda>e. ''Traceback'')"
    by (simp_all add: args_ex_def world0_def ext0_def )
  have d: "environ world0 ''VIRAL_NGS_SKIP_CMD'' = None"
    by (simp add: world0_def )
  show ?thesis
    unfolding run_cmd_with_tracking_def delattr_def call_cmd_main_def call_counted_def caught_def
      is_metadata_tracking_enabled_def record_metadata_def
    by (simp add: b c d assemble_falsy wrapper_eval)
qed

lemma run_off_falsy:
  "run_cmd_with_tracking ext0 ''mod'' ''cmd'' body_falsy args_ex world_off
     = \<lparr>result = Inr PNone,
        final = snd (body_falsy [] world_off),
        body_runs = 1\<rparr>"
  unfolding run_cmd_with_tracking_def delattr_def call_cmd_main_def call_counted_def caught_def
    is_metadata_tracking_enabled_def
  by (simp add: world_off_def world0_def args_ex_def body_falsy_def dom_def)

lemma assemble_idle:
  "assemble_step_data ext0 ''mod'' ''cmd'' args_ex 100 None None (PStr ''done'') (snd (body_idle [] world0))
     = Inr (''171104093000__ilya__work__u1__mod__cmd'', doc_idle)"
  by (simp add: recorder_defs example_defs body_idle_def  doc_idle_def)

lemma run_idle:
  "run_cmd_with_tracking ext0 ''mod'' ''cmd'' body_idle args_ex world0
     = \<lparr>result = Inr PNone,
        final = (snd (body_idle [] world0))\<lparr>store := [path_ex \<mapsto> doc_idle]\<rparr>,
        body_runs = 1\<rparr>"
proof -
  have b: "body_idle (without ''metadata'' args_ex) world0 = body_idle [] world0"
    "fst (body_idle [] world0) = Returned (PStr ''done'')"
    "environ (snd (body_idle [] world0)) = environ world0"
    "store (snd (body_idle [] world0)) = Map.empty"
    "store_writable (snd (body_idle [] world0)) = (\<lambda>p. True)"
    by (simp_all add: body_idle_def world0_def )
  have c: "map_of args_ex ''metadata'' = Some PNone" "now world0 = 100"
    "environ world0 ''VIRAL_NGS_METADATA_PATH'' = Some ''/md''"
    "store world0 = Map.empty" "store_writable world0 = (\<lambda>p. True)"
    "json_serializable ext0 = (\<lambda>d. True)" "format_exc ext0 = (\<lambda>e. ''Traceback'')"
    by (simp_all add: args_ex_def world0_def ext0_def )
  have d: "environ world0 ''VIRAL_NGS_SKIP_CMD'' = None"
    by (simp add: world0_def )
  show ?thesis
    unfolding run_cmd_with_tracking_def delattr_def call_cmd_main_def call_counted_def caught_def
      is_metadata_tracking_enabled_def record_metadata_def
    by (simp add: b c d assemble_idle wrapper_eval)
qed

lemma assemble_exit:
  "assemble_step_data ext0 ''mod'' ''cmd'' args_ex 100 None None PNone (snd (body_exit [] world0))
     = Inr (''171104093000__ilya__work__u1__mod__cmd'', doc_exit)"
  by (simp add: recorder_defs example_defs body_exit_def  doc_exit_def)

lemma run_exit:
  "run_cmd_with_tracking ext0 ''mod'' ''cmd'' body_exit args_ex world0
     = \<lparr>result = Inl (BaseException ''SystemExit''),
        final = (snd (body_exit [] world0))\<lparr>store := [path_ex \<mapsto> doc_exit]\<rparr>,
        body_runs = 1\<rparr>"
proof -
  have b: "body_exit (without ''metadata'' args_ex) world0 = body_exit [] world0"
    "fst (body_exit [] world0) = Raised (BaseException ''SystemExit'')"
    "environ (snd (body_exit [] world0)) = environ world0"
    "store (snd (body_exit [] world0)) = Map.empty"
    "store_writable (snd (body_exit [] world0)) = (\<lambda>p. True)"
    by (simp_all add: body_exit_def world0_def )
  have c: "map_of args_ex ''metadata'' = Some PNone" "now world0 = 100"
    "environ world0 ''VIRAL_NGS_METADATA_PATH'' = Some ''/md''"
    "store world0 = Map.empty" "store_writable world0 = (\<lambda>p. True)"
    "json_serializable ext0 = (\<lambda>d. True)" "format_exc ext0 = (\<lambda>e. ''Traceback'')"
    by (simp_all add: args_ex_def world0_def ext0_def )
  have d: "environ world0 ''VIRAL_NGS_SKIP_CMD'' = None"
    by (simp add: world0_def )
  show ?thesis
    unfolding run_cmd_with_tracking_def delattr_def call_cmd_main_def call_counted_def caught_def
      is_metadata_tracking_enabled_def record_metadata_def
    by (simp add: b c d assemble_exit wrapper_eval)
qed

lemma assemble_skip:
  "assemble_step_data ext0 ''mod'' ''cmd'' args_ex 100 None None PNone world_skip
     = Inr (''171104093000__ilya__work__u1__mod__cmd'', doc_skip)"
  by (simp add: recorder_defs example_defs body_raise_def world_skip_def doc_skip_def)

lemma run_skip:
  "run_cmd_with_tracking ext0 ''mod'' ''cmd'' body_raise args_ex world_skip
     = \<lparr>result = Inr PNone,
        final = world_skip\<lparr>store := [path_ex \<mapsto> doc_skip]\<rparr>,
        body_runs = 0\<rparr>"
proof -
  have b: "body_raise (without ''metadata'' args_ex) world_skip = body_raise [] world_skip"
    "fst (body_raise [] world_skip) = Raised (Exception (IOError ''boom''))"
    "environ (snd (body_raise [] world_skip)) = environ world_skip"
    "store (snd (body_raise [] world_skip)) = Map.empty"
    "store_writable (snd (body_raise [] world_skip)) = (\<lambda>p. True)"
    by (simp_all add: body_raise_def world0_def world_skip_def)
  have c: "map_of args_ex ''metadata'' = Some PNone" "now world_skip = 100"
    "environ world_skip ''VIRAL_NGS_METADATA_PATH'' = Some ''/md''"
    "store world_skip = Map.empty" "store_writable world_skip = (\<lambda>p. True)"
    "json_serializable ext0 = (\<lambda>d. True)" "format_exc ext0 = (\<lambda>e. ''Traceback'')"
    by (simp_all add: args_ex_def world0_def ext0_def world_skip_def)
  have d: "environ world_skip ''VIRAL_NGS_SKIP_CMD'' = Some ''1''"
    by (simp add: world0_def world_skip_def)
  show ?thesis
    unfolding run_cmd_with_tracking_def delattr_def call_cmd_main_def call_counted_def caught_def
      is_metadata_tracking_enabled_def record_metadata_def
    by (simp add: b c d assemble_skip wrapper_eval)
qed

lemma run_failing:
  "run_cmd_with_tracking ext_failing ''mod'' ''cmd'' body_raise args_ex world0
     = \<lparr>result = Inl (Exception (IOError ''boom'')),
        final = snd (body_raise [] world0),
        body_runs = 1\<rparr>"
  by (simp add: run_cmd_with_tracking_def delattr_def call_cmd_main_def call_counted_def caught_def
      is_metadata_tracking_enabled_def record_metadata_def assemble_step_data_def
      whole_step_data_def create_run_id_def metadata_dir_def andthen_def Let_def
      ext_failing_def ext0_def world0_def args_ex_def body_raise_def dom_def)

lemma run_failing_ok:
  "run_cmd_with_tracking ext_failing ''mod'' ''cmd'' body_ok args_ex world0
     = \<lparr>result = Inr PNone,
        final = snd (body_ok [] world0),
        body_runs = 1\<rparr>"
  by (simp add: run_cmd_with_tracking_def delattr_def call_cmd_main_def call_counted_def caught_def
      is_metadata_tracking_enabled_def record_metadata_def assemble_step_data_def
      whole_step_data_def create_run_id_def metadata_dir_def andthen_def Let_def
      ext_failing_def ext0_def world0_def args_ex_def body_ok_def dom_def)

lemma run_off:
  "run_cmd_with_tracking ext0 ''mod'' ''cmd'' body_raise args_ex world_off
     = \<lparr>result = Inl (Exception (IOError ''boom'')),
        final = snd (body_raise [] world_off),
        body_runs = 1\<rparr>"
  by (simp add: run_cmd_with_tracking_def delattr_def call_cmd_main_def call_counted_def caught_def
      is_metadata_tracking_enabled_def Let_def
      world_off_def world0_def args_ex_def body_raise_def dom_def)




subsection \<open>Errors of the body and errors of the recording\<close>

text \<open>
  What the invoker gets, for arguments parsed by the command's parser (which always sets
  the \<open>metadata\<close> attribute) and for every behaviour of the collaborators used by the
  recording, raising ones included. The wrapper raises only what the call of the body
  raised: no exception of the recording reaches the invoker. A BaseException that is
  not an Exception passes through. A caught Exception is raised again when its truth
  value is true; when it is false the wrapper returns None. A document that the
  invocation has added to the store holds the text of the caught exception, or none
  when no Exception was caught.
\<close>

lemma recording_error_not_raised:
  assumes "map_of args0 ''metadata'' = Some m"
    and "called = call_cmd_main cmd_main (without ''metadata'' args0) w0"
    and "obs = run_cmd_with_tracking x cm cn cmd_main args0 w0"
  shows "(\<forall>r. result obs = Inl r \<longrightarrow> fst called = Raised r)
       \<and> (\<forall>b. fst called = Raised (BaseException b) \<longrightarrow> result obs = Inl (BaseException b))
       \<and> (\<forall>e. fst called = Raised (Exception e)
            \<longrightarrow> result obs = (if exception_truthy e then Inl (Exception e) else Inr PNone))
       \<and> (\<forall>v. fst called = Returned v \<longrightarrow> result obs = Inr PNone)
       \<and> (\<forall>p d. store (final obs) p = Some d \<and> store (snd called) p \<noteq> Some d
            \<longrightarrow> exception (run_info (step d))
                  = map_option (format_exc x) (caught (fst called)))"
proof -
  note R = wrapper_result [OF assms(1), of x cm cn cmd_main w0, folded assms(2,3)]
  have 1: "\<forall>r. result obs = Inl r \<longrightarrow> fst called = Raised r"
    unfolding R by (simp split: outcome.split raised.split)
  have 2: "\<forall>b. fst called = Raised (BaseException b) \<longrightarrow> result obs = Inl (BaseException b)"
    unfolding R by simp
  have 3: "\<forall>e. fst called = Raised (Exception e)
            \<longrightarrow> result obs = (if exception_truthy e then Inl (Exception e) else Inr PNone)"
    unfolding R by simp
  have 4: "\<forall>v. fst called = Returned v \<longrightarrow> result obs = Inr PNone"
    unfolding R by simp
  have 5: "\<forall>p d. store (final obs) p = Some d \<and> store (snd called) p \<noteq> Some d
            \<longrightarrow> exception (run_info (step d))
                  = map_option (format_exc x) (caught (fst called))"
  proof (intro allI impI)
    fix p d
    assume "store (final obs) p = Some d \<and> store (snd called) p \<noteq> Some d"
    then have "\<exists>sid. assemble_step_data x cm cn args0 (now w0) (caught (fst called))
                        (map_option (format_exc x) (caught (fst called)))
                        (case fst called of Returned v \<Rightarrow> v | _ \<Rightarrow> PNone) (snd called)
                      = Inr (sid, d)"
      using wrapper_new_document [OF assms, of p d] by blast
    then show "exception (run_info (step d)) = map_option (format_exc x) (caught (fst called))"
      using assemble_step_data_Inr by blast
  qed
  from 1 2 3 4 5 show ?thesis by (intro conjI)
qed

text \<open>
  Claim C1 fails on the code: an exception of the body is not always raised again. The
  last statement of the wrapper is \<open>if cmd_exception: raise cmd_exception\<close>, which
  tests the truth value of the caught exception, not whether one was caught. A body
  that raises an instance of an Exception subclass whose \<open>__len__\<close> returns 0 is run
  once, with tracking enabled and VIRAL_NGS_SKIP_CMD absent; the record is persisted
  with the text of the exception, so the recording takes the command as failed; and the
  wrapper returns None to the invoker instead of raising. The same invocation with a
  body that raises an IOError raises that IOError.
\<close>

theorem falsy_error_not_reraised:
  "fst (body_falsy (without ''metadata'' args_ex) world0)
       = Raised (Exception (CustomError False ''no items''))
   \<and> \<not> exception_truthy (CustomError False ''no items'')
   \<and> is_metadata_tracking_enabled world0
   \<and> ''VIRAL_NGS_SKIP_CMD'' \<notin> dom (environ world0)
   \<and> body_runs (run_cmd_with_tracking ext0 ''mod'' ''cmd'' body_falsy args_ex world0) = 1
   \<and> result (run_cmd_with_tracking ext0 ''mod'' ''cmd'' body_falsy args_ex world0) = Inr PNone
   \<and> store (final (run_cmd_with_tracking ext0 ''mod'' ''cmd'' body_falsy args_ex world0))
       = [path_ex \<mapsto> doc_raise]
   \<and> exception (run_info (step doc_raise)) = Some ''Traceback''
   \<and> result (run_cmd_with_tracking ext0 ''mod'' ''cmd'' body_raise args_ex world0)
       = Inl (Exception (IOError ''boom''))"
  unfolding run_falsy run_raise
  by (simp add: body_falsy_def doc_raise_def is_metadata_tracking_enabled_def world0_def)

subsection \<open>Tracking switched off\<close>

lemma call_cmd_main_cases:
  "call_cmd_main cmd_main a w =
     (if ''VIRAL_NGS_SKIP_CMD'' \<in> dom (environ w) then (Returned PNone, w) else cmd_main a w)"
  by (simp add: call_cmd_main_def call_counted_def)




subsection \<open>Skipping the command body\<close>

text \<open>
  Claim C10. When VIRAL_NGS_SKIP_CMD is in the environment at the call, the body is not
  called: the wrapper returns None, the world it leaves is the world of the call but for
  the store, and a document that the invocation adds to the store has the flag
  \<open>cmd_was_skipped\<close> set, no exception text and no metadata from a command return.
  When the variable is absent the body is called exactly once: the world the wrapper
  leaves is the world after one call of the body, but for the store.
\<close>

theorem skip_cmd:
  assumes "map_of args0 ''metadata'' = Some m"
    and "obs = run_cmd_with_tracking x cm cn cmd_main args0 w0"
  shows "(''VIRAL_NGS_SKIP_CMD'' \<in> dom (environ w0)
            \<longrightarrow> body_runs obs = 0
              \<and> result obs = Inr PNone
              \<and> final obs = w0\<lparr>store := store (final obs)\<rparr>
              \<and> (\<forall>p d. store (final obs) p = Some d \<and> store w0 p \<noteq> Some d
                    \<longrightarrow> cmd_was_skipped (run_info (step d))
                      \<and> exception (run_info (step d)) = None
                      \<and> metadata_from_cmd_return (step d) = []))
       \<and> (''VIRAL_NGS_SKIP_CMD'' \<notin> dom (environ w0)
            \<longrightarrow> body_runs obs = 1
              \<and> final obs
                  = (snd (cmd_main (without ''metadata'' args0) w0))\<lparr>store := store (final obs)\<rparr>)"
proof (intro conjI impI)
  define called where "called = call_cmd_main cmd_main (without ''metadata'' args0) w0"
  note R = wrapper_result [OF assms(1), of x cm cn cmd_main w0, folded called_def assms(2)]
  note B = wrapper_body_runs [OF assms(1), of x cm cn cmd_main w0, folded assms(2)]
  note Fr = wrapper_frame [OF assms(1) called_def assms(2)]
  {
    assume skip: "''VIRAL_NGS_SKIP_CMD'' \<in> dom (environ w0)"
    then have c: "called = (Returned PNone, w0)"
      unfolding called_def by (simp add: call_cmd_main_cases)
    show "body_runs obs = 0" unfolding B using skip by simp
    show "result obs = Inr PNone" unfolding R c by simp
    show "final obs = w0\<lparr>store := store (final obs)\<rparr>" using Fr unfolding c by simp
    show "\<forall>p d. store (final obs) p = Some d \<and> store w0 p \<noteq> Some d
                    \<longrightarrow> cmd_was_skipped (run_info (step d))
                      \<and> exception (run_info (step d)) = None
                      \<and> metadata_from_cmd_return (step d) = []"
    proof (intro allI impI)
      fix p d
      assume "store (final obs) p = Some d \<and> store w0 p \<noteq> Some d"
      then have n: "store (final obs) p = Some d" "store (snd called) p \<noteq> Some d"
        unfolding c by simp_all
      from wrapper_new_document [OF assms(1) called_def assms(2) n]
      obtain sid where "assemble_step_data x cm cn args0 (now w0) (caught (fst called))
                      (map_option (format_exc x) (caught (fst called)))
                      (case fst called of Returned v \<Rightarrow> v | _ \<Rightarrow> PNone) (snd called)
                    = Inr (sid, d)"
        by blast
      then have "assemble_step_data x cm cn args0 (now w0) None None PNone w0 = Inr (sid, d)"
        unfolding c by (simp add: caught_def)
      from assemble_step_data_Inr [OF this] skip
      show "cmd_was_skipped (run_info (step d))
                      \<and> exception (run_info (step d)) = None
                      \<and> metadata_from_cmd_return (step d) = []"
        by simp
    qed
  }
  {
    assume noskip: "''VIRAL_NGS_SKIP_CMD'' \<notin> dom (environ w0)"
    then have c: "called = cmd_main (without ''metadata'' args0) w0"
      unfolding called_def by (simp add: call_cmd_main_cases)
    show "body_runs obs = 1" unfolding B using noskip by simp
    show "final obs
           = (snd (cmd_main (without ''metadata'' args0) w0))\<lparr>store := store (final obs)\<rparr>"
      using Fr unfolding c by simp
  }
qed

theorem skip_cmd_witness:
  "map_of args_ex ''metadata'' = Some PNone
   \<and> ''VIRAL_NGS_SKIP_CMD'' \<in> dom (environ world_skip)
   \<and> body_runs (run_cmd_with_tracking ext0 ''mod'' ''cmd'' body_raise args_ex world_skip) = 0
   \<and> result (run_cmd_with_tracking ext0 ''mod'' ''cmd'' body_raise args_ex world_skip) = Inr PNone
   \<and> store (final (run_cmd_with_tracking ext0 ''mod'' ''cmd'' body_raise args_ex world_skip)) path_ex
       = Some doc_skip
   \<and> cmd_was_skipped (run_info (step doc_skip))
   \<and> ''VIRAL_NGS_SKIP_CMD'' \<notin> dom (environ world0)
   \<and> body_runs (run_cmd_with_tracking ext0 ''mod'' ''cmd'' body_ok args_ex world0) = 1
   \<and> now (final (run_cmd_with_tracking ext0 ''mod'' ''cmd'' body_ok args_ex world0))
       = now world0 + 5"
proof -
  have m: "map_of args_ex ''metadata'' = Some PNone"
    by (simp add: args_ex_def)
  have s: "''VIRAL_NGS_SKIP_CMD'' \<in> dom (environ world_skip)"
    "''VIRAL_NGS_SKIP_CMD'' \<notin> dom (environ world0)" "store world_skip path_ex \<noteq> Some doc_skip"
    by (simp_all add: world_skip_def world0_def)
  have st: "store (final (run_cmd_with_tracking ext0 ''mod'' ''cmd'' body_raise args_ex world_skip)) path_ex
       = Some doc_skip"
    unfolding run_skip by simp
  note T = skip_cmd [where x = ext0 and cm = "''mod''" and cn = "''cmd''"
      and cmd_main = body_raise and ?w0.0 = world_skip, OF m refl]
  note U = skip_cmd [where x = ext0 and cm = "''mod''" and cn = "''cmd''"
      and cmd_main = body_ok and ?w0.0 = world0, OF m refl]
  have 1: "body_runs (run_cmd_with_tracking ext0 ''mod'' ''cmd'' body_raise args_ex world_skip) = 0"
    "result (run_cmd_with_tracking ext0 ''mod'' ''cmd'' body_raise args_ex world_skip) = Inr PNone"
    using T s by blast+
  have 2: "cmd_was_skipped (run_info (step doc_skip))"
    using T s st by blast
  have 3: "body_runs (run_cmd_with_tracking ext0 ''mod'' ''cmd'' body_ok args_ex world0) = 1"
    using U s by blast
  have "final (run_cmd_with_tracking ext0 ''mod'' ''cmd'' body_ok args_ex world0)
          = (snd (body_ok (without ''metadata'' args_ex) world0))
              \<lparr>store := store (final (run_cmd_with_tracking ext0 ''mod'' ''cmd'' body_ok args_ex world0))\<rparr>"
    using U s by blast
  then have "now (final (run_cmd_with_tracking ext0 ''mod'' ''cmd'' body_ok args_ex world0))
          = now ((snd (body_ok (without ''metadata'' args_ex) world0))
              \<lparr>store := store (final (run_cmd_with_tracking ext0 ''mod'' ''cmd'' body_ok args_ex world0))\<rparr>)"
    by (rule arg_cong)
  then have 4: "now (final (run_cmd_with_tracking ext0 ''mod'' ''cmd'' body_ok args_ex world0))
       = now world0 + 5"
    by (simp add: body_ok_def)
  from m s st 1 2 3 4 show ?thesis by simp
qed

subsection \<open>The file entries and the arguments of a persisted document\<close>

text \<open>
  Claim C3 as stated fails. A body that returns without writing its declared output file
  leaves an output entry with an identity field (the empty string) and without size,
  mtime, ctime and owner, although the body did not raise: os.stat fails and the code
  skips the remaining fields. A body that leaves through \<open>sys.exit\<close> raises, yet the
  output entry has an identity field: SystemExit is not an Exception, so
  \<open>cmd_exception\<close> stays None.
\<close>

theorem file_entry_counterexample:
  "fst (body_idle (without ''metadata'' args_ex) world0) = Returned (PStr ''done'')
   \<and> store (final (run_cmd_with_tracking ext0 ''mod'' ''cmd'' body_idle args_ex world0)) path_ex
       = Some doc_idle
   \<and> out_files doc_idle ''out'' = Some out_missing
   \<and> hash out_missing = Some []
   \<and> size_f out_missing = None \<and> mtime out_missing = None
   \<and> ctime out_missing = None \<and> owner out_missing = None
   \<and> fst (body_exit (without ''metadata'' args_ex) world0) = Raised (BaseException ''SystemExit'')
   \<and> store (final (run_cmd_with_tracking ext0 ''mod'' ''cmd'' body_exit args_ex world0)) path_ex
       = Some doc_exit
   \<and> out_files doc_exit ''out'' = Some out_missing"
  unfolding run_idle run_exit
  by (simp add: body_idle_def body_exit_def doc_idle_def doc_exit_def out_missing_def)

text \<open>
  Claim C3, amended. In a document that the invocation adds to the store, every input
  entry, and every output entry when no Exception of the body was caught (the body
  returned, was skipped, or left through a BaseException that is not an Exception), holds
  the identity that the Hasher returned, possibly empty, and holds size, mtime and ctime
  exactly when os.stat succeeds on the file as the record is assembled, and the owner
  when in addition the file's uid has a name. Every output entry when an Exception of the
  body was caught holds path information only. Every entry names its path.
\<close>

theorem file_entry_fields:
  assumes "map_of args0 ''metadata'' = Some m"
    and "called = call_cmd_main cmd_main (without ''metadata'' args0) w0"
    and "obs = run_cmd_with_tracking x cm cn cmd_main args0 w0"
    and "store (final obs) p = Some d"
    and "store (snd called) p \<noteq> Some d"
  shows "(\<forall>port fi. in_files d port = Some fi
            \<longrightarrow> identity_and_stat_fields x (snd called) fi)
       \<and> (\<forall>port fi. out_files d port = Some fi
            \<longrightarrow> (if caught (fst called) = None
                 then identity_and_stat_fields x (snd called) fi
                 else path_fields_only fi))"
proof -
  from wrapper_new_document [OF assms]
  obtain sid where "assemble_step_data x cm cn args0 (now w0) (caught (fst called))
                      (map_option (format_exc x) (caught (fst called)))
                      (case fst called of Returned v \<Rightarrow> v | _ \<Rightarrow> PNone) (snd called)
                    = Inr (sid, d)"
    by blast
  from assemble_step_data_Inr [OF this]
  have "entries_ok x (snd called) (caught (fst called)) d"
    by blast
  then show ?thesis
    unfolding entries_ok_def .
qed

theorem file_entry_fields_witness:
  "map_of args_ex ''metadata'' = Some PNone
   \<and> store (final (run_cmd_with_tracking ext0 ''mod'' ''cmd'' body_raise args_ex world0)) path_ex
       = Some doc_raise
   \<and> caught (fst (call_cmd_main body_raise (without ''metadata'' args_ex) world0))
       = Some (IOError ''boom'')
   \<and> (\<exists>fi. in_files doc_raise ''inp'' = Some fi
          \<and> identity_and_stat_fields ext0
               (snd (call_cmd_main body_raise (without ''metadata'' args_ex) world0)) fi
          \<and> hash fi = Some ''sha1_beef'' \<and> size_f fi = Some 2 \<and> owner fi = Some ''root'')
   \<and> (\<exists>fi. out_files doc_raise ''out'' = Some fi \<and> path_fields_only fi)"
proof -
  have m: "map_of args_ex ''metadata'' = Some PNone"
    by (simp add: args_ex_def)
  have st: "store (final (run_cmd_with_tracking ext0 ''mod'' ''cmd'' body_raise args_ex world0)) path_ex
       = Some doc_raise"
    unfolding run_raise by simp
  have c: "caught (fst (call_cmd_main body_raise (without ''metadata'' args_ex) world0))
       = Some (IOError ''boom'')"
    "store (snd (call_cmd_main body_raise (without ''metadata'' args_ex) world0)) path_ex
       \<noteq> Some doc_raise"
    by (simp_all add: call_cmd_main_def call_counted_def body_raise_def caught_def world0_def dom_def)
  note T = file_entry_fields [OF m refl refl st c(2)]
  obtain fi where i: "in_files doc_raise ''inp'' = Some fi"
    "hash fi = Some ''sha1_beef''" "size_f fi = Some 2" "owner fi = Some ''root''"
    by (simp add: doc_raise_def doc_ok_def)
  obtain fo where o: "out_files doc_raise ''out'' = Some fo"
    by (simp add: doc_raise_def)
  have 1: "identity_and_stat_fields ext0
               (snd (call_cmd_main body_raise (without ''metadata'' args_ex) world0)) fi"
    using T i by blast
  have 2: "path_fields_only fo"
    using T o c(1) by (metis option.distinct(1))
  from m st c 1 2 i o show ?thesis by blast
qed

text \<open>
  Claim C9 as stated fails: nothing removes the file arguments from \<open>args_dict\<close>, which
  becomes the \<open>args\<close> field. The persisted arguments of the example run hold the input
  file and the output file, which are in the port mappings as well.
\<close>

theorem args_field_counterexample:
  "store (final (run_cmd_with_tracking ext0 ''mod'' ''cmd'' body_ok args_ex world0)) path_ex
       = Some doc_ok
   \<and> (''inp'', PFileArg InFile ''a.txt'') \<in> set (args (step doc_ok))
   \<and> (''out'', PFileArg OutFile ''out.txt'') \<in> set (args (step doc_ok))
   \<and> ''inp'' \<in> dom (in_files doc_ok)
   \<and> ''out'' \<in> dom (out_files doc_ok)"
  unfolding run_ok by (simp add: doc_ok_def)

text \<open>
  Claim C9, amended. In a document that the invocation adds to the store, the \<open>args\<close>
  field holds all parsed arguments of the command except \<open>metadata\<close> and
  \<open>func_main\<close>, the file-valued ones included; every non-empty file value among these
  arguments and the returned metadata has, in addition, its port name in \<open>in_files\<close> or
  \<open>out_files\<close>.
\<close>

theorem args_field:
  assumes "map_of args0 ''metadata'' = Some m"
    and "called = call_cmd_main cmd_main (without ''metadata'' args0) w0"
    and "obs = run_cmd_with_tracking x cm cn cmd_main args0 w0"
    and "store (final obs) p = Some d"
    and "store (snd called) p \<noteq> Some d"
  shows "args (step d) = without ''func_main'' (without ''metadata'' args0)
       \<and> ports_of (args (step d) @ metadata_from_cmd_return (step d))
           \<subseteq> dom (in_files d) \<union> dom (out_files d)"
proof -
  from wrapper_new_document [OF assms]
  obtain sid where "assemble_step_data x cm cn args0 (now w0) (caught (fst called))
                      (map_option (format_exc x) (caught (fst called)))
                      (case fst called of Returned v \<Rightarrow> v | _ \<Rightarrow> PNone) (snd called)
                    = Inr (sid, d)"
    by blast
  from assemble_step_data_Inr [OF this] show ?thesis
    by blast
qed

theorem args_field_witness:
  "map_of args_ex ''metadata'' = Some PNone
   \<and> store (final (run_cmd_with_tracking ext0 ''mod'' ''cmd'' body_ok args_ex world0)) path_ex
       = Some doc_ok
   \<and> args (step doc_ok)
       = [(''inp'', PFileArg InFile ''a.txt''), (''out'', PFileArg OutFile ''out.txt''),
          (''threads'', PInt 4)]
   \<and> args (step doc_ok) = without ''func_main'' (without ''metadata'' args_ex)
   \<and> ports_of (args (step doc_ok) @ metadata_from_cmd_return (step doc_ok))
       \<subseteq> dom (in_files doc_ok) \<union> dom (out_files doc_ok)"
proof -
  have m: "map_of args_ex ''metadata'' = Some PNone"
    by (simp add: args_ex_def)
  have st: "store (final (run_cmd_with_tracking ext0 ''mod'' ''cmd'' body_ok args_ex world0)) path_ex
       = Some doc_ok"
    unfolding run_ok by simp
  have c: "store (snd (call_cmd_main body_ok (without ''metadata'' args_ex) world0)) path_ex
       \<noteq> Some doc_ok"
    by (simp add: call_cmd_main_def call_counted_def body_ok_def world0_def dom_def)
  note T = args_field [OF m refl refl st c]
  have a: "args (step doc_ok)
       = [(''inp'', PFileArg InFile ''a.txt''), (''out'', PFileArg OutFile ''out.txt''),
          (''threads'', PInt 4)]"
    by (simp add: doc_ok_def)
  from m st a T show ?thesis by blast
qed

subsection \<open>The node and edge sets that load builds\<close>

lemma add_node_sets:
  "dom (nodes (add_node g n a)) = insert n (dom (nodes g))"
  "edges (add_node g n a) = edges g"
  by (simp_all add: add_node_def)

lemma add_edge_sets:
  "dom (nodes (add_edge g u v)) = insert u (insert v (dom (nodes g)))"
  "edges (add_edge g u v) = insert (u, v) (edges g)"
  by (auto simp: add_edge_def Let_def add_node_sets)

lemma load_ports_sets:
  "dom (nodes (load_ports sid inp ps g)) = dom (nodes g) \<union> \<Union> (port_nodes sid ` set ps)
   \<and> edges (load_ports sid inp ps g) = edges g \<union> \<Union> (port_edges sid inp ` set ps)"
proof (induction ps arbitrary: g)
  case Nil
  then show ?case by simp
next
  case (Cons pe ps)
  obtain pn info where pe: "pe = (pn, info)" by (cases pe) auto
  define g4 where "g4 =
     (let port_id = sid @ ''__'' @ pn;
          g1 = add_node g port_id info;
          g2 = add_node g1 port_id [''node_kind'' \<mapsto> (if inp then ''input'' else ''output'')];
          g3 = (if inp then add_edge g2 port_id sid else add_edge g2 sid port_id)
      in case info ''hash'' of
                  None \<Rightarrow> g3
                | Some file_id \<Rightarrow>
                    if file_id \<noteq> [] then
                      (let g5 = add_node g3 file_id [''node_kind'' \<mapsto> ''file'']
                       in if inp then add_edge g5 file_id port_id
                          else add_edge g5 port_id file_id)
                    else g3)"
  have step: "load_ports sid inp (pe # ps) g = load_ports sid inp ps g4"
    unfolding pe g4_def by (simp add: Let_def)
  have n4: "dom (nodes g4) = dom (nodes g) \<union> port_nodes sid pe"
    unfolding pe g4_def port_nodes_def
    by (auto simp: Let_def add_node_sets add_edge_sets split: option.split)
  have e4: "edges g4 = edges g \<union> port_edges sid inp pe"
    unfolding pe g4_def port_edges_def
    by (auto simp: Let_def add_node_sets add_edge_sets split: option.split)
  show ?case
    unfolding step using Cons.IH [of g4] n4 e4 by auto
qed

lemma load_record_sets:
  assumes "load_record (Some g) r = Inr g'"
  shows "dom (nodes g') = dom (nodes g) \<union> record_nodes r
       \<and> edges g' = edges g \<union> record_edges r"
proof -
  from assms obtain sid where sid: "sr_step r ''step_id'' = Some sid"
    and g': "g' = load_ports sid False (sr_out_files r)
                   (load_ports sid True (sr_in_files r)
                     (add_node g sid ([''node_kind'' \<mapsto> ''step''] ++ sr_step r)))"
    by (auto simp: load_record_def split: option.splits if_splits)
  show ?thesis
    unfolding g' record_nodes_def record_edges_def sid
    by (auto simp: load_ports_sets add_node_sets)
qed

lemma load_record_loadable:
  "(\<exists>g'. load_record (Some g) r = Inr g')
     = (sr_step r ''step_id'' \<noteq> None \<and> ''node_kind'' \<notin> dom (sr_step r))"
  by (auto simp: load_record_def split: option.splits)

lemma loaded_Cons:
  "loaded ((f, pr) # es) =
     (if endswith f ''.json'' then (case pr of Inl e \<Rightarrow> {} | Inr r \<Rightarrow> {r}) else {}) \<union> loaded es"
  by (auto simp: loaded_def split: sum.splits)

lemma load_entries_sets:
  assumes "load_entries (Some g0) es = Inr g"
  shows "dom (nodes g) = dom (nodes g0) \<union> \<Union> (record_nodes ` loaded es)
       \<and> edges g = edges g0 \<union> \<Union> (record_edges ` loaded es)"
  using assms
proof (induction es arbitrary: g0)
  case Nil
  then show ?case by (simp add: loaded_def)
next
  case (Cons e es)
  obtain f pr where e: "e = (f, pr)" by (cases e) auto
  show ?case
  proof (cases "endswith f ''.json''")
    case False
    with Cons.prems have "load_entries (Some g0) es = Inr g"
      unfolding e by simp
    from Cons.IH [OF this] show ?thesis
      unfolding e loaded_Cons using False by simp
  next
    case True
    with Cons.prems obtain r g1 where pr: "pr = Inr r"
      and r: "load_record (Some g0) r = Inr g1"
      and rest: "load_entries (Some g1) es = Inr g"
      unfolding e by (auto simp: andthen_eq_Inr)
    note A = load_record_sets [OF r]
    note B = Cons.IH [OF rest]
    show ?thesis
      unfolding e loaded_Cons pr using True A B by auto
  qed
qed

lemma load_entries_loadable:
  "(\<exists>g. load_entries (Some g0) es = Inr g) = (\<forall>e \<in> set es. loadable e)"
proof (induction es arbitrary: g0)
  case Nil
  then show ?case by simp
next
  case (Cons e es)
  obtain f pr where e: "e = (f, pr)" by (cases e) auto
  show ?case
  proof (cases "endswith f ''.json''")
    case False
    then show ?thesis
      unfolding e using Cons.IH [of g0] by (simp add: loadable_def)
  next
    case True
    show ?thesis
    proof (cases pr)
      case (Inl err)
      then show ?thesis unfolding e using True by (simp add: loadable_def andthen_Inl)
    next
      case (Inr r)
      show ?thesis
      proof (cases "\<exists>g1. load_record (Some g0) r = Inr g1")
        case True': True
        then obtain g1 where g1: "load_record (Some g0) r = Inr g1" by blast
        have l: "loadable (f, Inr r)"
          using True' True unfolding load_record_loadable by (simp add: loadable_def)
        show ?thesis
          unfolding e Inr using True g1 l Cons.IH [of g1] by (simp add: andthen_Inr)
      next
        case False
        then obtain err where err: "load_record (Some g0) r = Inl err"
          by (cases "load_record (Some g0) r") auto
        have l: "\<not> loadable (f, Inr r)"
          using False True unfolding load_record_loadable by (simp add: loadable_def)
        show ?thesis
          unfolding e Inr using True err l by (simp add: andthen_Inr andthen_Inl)
      qed
    qed
  qed
qed

lemma load_entries_order:
  assumes "set es = set es'"
    and "load_entries (Some g0) es = Inr g"
  shows "\<exists>g'. load_entries (Some g0) es' = Inr g'
            \<and> dom (nodes g') = dom (nodes g) \<and> edges g' = edges g"
proof -
  have "\<forall>e \<in> set es. loadable e"
    using assms(2) load_entries_loadable by blast
  then have "\<forall>e \<in> set es'. loadable e"
    using assms(1) by simp
  then obtain g' where g': "load_entries (Some g0) es' = Inr g'"
    using load_entries_loadable by blast
  have "loaded es = loaded es'"
    using assms(1) by (simp add: loaded_def)
  then show ?thesis
    using load_entries_sets [OF assms(2)] load_entries_sets [OF g'] g' by simp
qed

lemma load_entries_unbound: "\<exists>e. load_entries None es = Inl e"
proof (induction es)
  case Nil
  then show ?case by simp
next
  case (Cons e es)
  obtain f pr where e: "e = (f, pr)" by (cases e) auto
  show ?case
  proof (cases "endswith f ''.json''")
    case False
    then show ?thesis unfolding e using Cons.IH by simp
  next
    case True
    then show ?thesis
      unfolding e
      by (cases pr) (auto simp: andthen_def load_record_def split: option.split)
  qed
qed

subsection \<open>File nodes keep their kind\<close>

lemma add_node_other: "n \<noteq> k \<Longrightarrow> nodes (add_node g k a) n = nodes g n"
  by (simp add: add_node_def)

lemma add_node_empty_kind: "is_file_node g n \<Longrightarrow> is_file_node (add_node g k Map.empty) n"
  by (auto simp: is_file_node_def add_node_def split: option.splits)

lemma is_file_node_edges: "is_file_node (g\<lparr>edges := E\<rparr>) n = is_file_node g n"
  by (simp add: is_file_node_def)

lemma add_edge_kind: "is_file_node g n \<Longrightarrow> is_file_node (add_edge g u v) n"
  by (simp add: add_edge_def Let_def add_node_empty_kind is_file_node_edges)

lemma add_node_other_kind:
  "n \<noteq> k \<Longrightarrow> is_file_node (add_node g k a) n = is_file_node g n"
  by (simp add: is_file_node_def add_node_other)

lemma add_node_file_kind: "is_file_node (add_node g n [''node_kind'' \<mapsto> ''file'']) n"
  by (simp add: is_file_node_def add_node_def split: option.split)

lemma add_node_file_keeps:
  "is_file_node g n \<Longrightarrow> is_file_node (add_node g k [''node_kind'' \<mapsto> ''file'']) n"
  by (cases "n = k") (simp_all add: add_node_file_kind add_node_other_kind)

lemma load_ports_kind:
  assumes "n \<noteq> sid" and "n \<notin> (\<lambda>pe. sid @ ''__'' @ fst pe) ` set ps"
    and "is_file_node g n \<or> (n \<noteq> [] \<and> (\<exists>pe \<in> set ps. snd pe ''hash'' = Some n))"
  shows "is_file_node (load_ports sid inp ps g) n"
  using assms
proof (induction ps arbitrary: g)
  case Nil
  then show ?case by simp
next
  case (Cons pe ps)
  obtain pn info where pe: "pe = (pn, info)" by (cases pe) auto
  define g4 where "g4 =
     (let port_id = sid @ ''__'' @ pn;
          g1 = add_node g port_id info;
          g2 = add_node g1 port_id [''node_kind'' \<mapsto> (if inp then ''input'' else ''output'')];
          g3 = (if inp then add_edge g2 port_id sid else add_edge g2 sid port_id)
      in case info ''hash'' of
                  None \<Rightarrow> g3
                | Some file_id \<Rightarrow>
                    if file_id \<noteq> [] then
                      (let g5 = add_node g3 file_id [''node_kind'' \<mapsto> ''file'']
                       in if inp then add_edge g5 file_id port_id
                          else add_edge g5 port_id file_id)
                    else g3)"
  have step: "load_ports sid inp (pe # ps) g = load_ports sid inp ps g4"
    unfolding pe g4_def by (simp add: Let_def)
  have nq: "n \<noteq> sid @ ''__'' @ pn" using Cons.prems(2) unfolding pe by simp
  have k4a: "is_file_node g n \<Longrightarrow> is_file_node g4 n"
    unfolding g4_def using nq
    by (auto simp: Let_def add_edge_kind add_node_other_kind add_node_file_keeps
        split: option.split)
  have k4b: "n \<noteq> [] \<Longrightarrow> info ''hash'' = Some n \<Longrightarrow> is_file_node g4 n"
    unfolding g4_def by (simp add: Let_def add_edge_kind add_node_file_kind)
  have pre: "is_file_node g4 n \<or> (n \<noteq> [] \<and> (\<exists>pe \<in> set ps. snd pe ''hash'' = Some n))"
    using Cons.prems(3) k4a k4b unfolding pe by auto
  have "n \<notin> (\<lambda>pe. sid @ ''__'' @ fst pe) ` set ps"
    using Cons.prems(2) by simp
  from Cons.IH [OF Cons.prems(1) this pre] show ?case
    unfolding step .
qed

lemma load_record_kind:
  assumes "load_record (Some g) r = Inr g'"
    and "n \<notin> step_and_port_ids r"
    and "is_file_node g n \<or> n \<in> identities r"
  shows "is_file_node g' n"
proof -
  from assms(1) obtain sid where sid: "sr_step r ''step_id'' = Some sid"
    and g': "g' = load_ports sid False (sr_out_files r)
                   (load_ports sid True (sr_in_files r)
                     (add_node g sid ([''node_kind'' \<mapsto> ''step''] ++ sr_step r)))"
    by (auto simp: load_record_def split: option.splits if_splits)
  define ga where "ga = add_node g sid ([''node_kind'' \<mapsto> ''step''] ++ sr_step r)"
  define gb where "gb = load_ports sid True (sr_in_files r) ga"
  have n: "n \<noteq> sid" "n \<notin> (\<lambda>pe. sid @ ''__'' @ fst pe) ` set (sr_in_files r)"
    "n \<notin> (\<lambda>pe. sid @ ''__'' @ fst pe) ` set (sr_out_files r)"
    using assms(2) unfolding step_and_port_ids_def sid by auto
  have ka: "is_file_node g n \<Longrightarrow> is_file_node ga n"
    unfolding ga_def using n(1) by (simp add: add_node_other_kind)
  have "is_file_node ga n \<or> (n \<noteq> [] \<and> (\<exists>pe \<in> set (sr_in_files r). snd pe ''hash'' = Some n))
        \<or> (n \<noteq> [] \<and> (\<exists>pe \<in> set (sr_out_files r). snd pe ''hash'' = Some n))"
    using assms(3) ka unfolding identities_def by auto
  then consider
    (a) "is_file_node ga n \<or> (n \<noteq> [] \<and> (\<exists>pe \<in> set (sr_in_files r). snd pe ''hash'' = Some n))"
    | (b) "n \<noteq> [] \<and> (\<exists>pe \<in> set (sr_out_files r). snd pe ''hash'' = Some n)"
    by blast
  then have "is_file_node (load_ports sid False (sr_out_files r) gb) n"
  proof cases
    case a
    have "is_file_node gb n"
      unfolding gb_def using n(1,2) a by (rule load_ports_kind)
    then have "is_file_node gb n \<or> (n \<noteq> [] \<and> (\<exists>pe \<in> set (sr_out_files r). snd pe ''hash'' = Some n))"
      by simp
    with n(1,3) show ?thesis by (rule load_ports_kind)
  next
    case b
    then have "is_file_node gb n \<or> (n \<noteq> [] \<and> (\<exists>pe \<in> set (sr_out_files r). snd pe ''hash'' = Some n))"
      by simp
    with n(1,3) show ?thesis by (rule load_ports_kind)
  qed
  then show ?thesis unfolding g' gb_def ga_def .
qed

lemma load_entries_kind:
  assumes "load_entries (Some g0) es = Inr g"
    and "n \<notin> \<Union> (step_and_port_ids ` loaded es)"
    and "is_file_node g0 n \<or> n \<in> \<Union> (identities ` loaded es)"
  shows "is_file_node g n"
  using assms
proof (induction es arbitrary: g0)
  case Nil
  then show ?case by (simp add: loaded_def)
next
  case (Cons e es)
  obtain f pr where e: "e = (f, pr)" by (cases e) auto
  show ?case
  proof (cases "endswith f ''.json''")
    case False
    then have l: "loaded (e # es) = loaded es"
      unfolding e loaded_Cons by simp
    from False Cons.prems(1) have "load_entries (Some g0) es = Inr g"
      unfolding e by simp
    from Cons.IH [OF this] Cons.prems(2,3) show ?thesis
      unfolding l by blast
  next
    case True
    with Cons.prems(1) obtain r g1 where pr: "pr = Inr r"
      and r: "load_record (Some g0) r = Inr g1"
      and rest: "load_entries (Some g1) es = Inr g"
      unfolding e by (auto simp: andthen_eq_Inr)
    have l: "loaded (e # es) = insert r (loaded es)"
      unfolding e pr loaded_Cons using True by simp
    have n1: "n \<notin> step_and_port_ids r" and n2: "n \<notin> \<Union> (step_and_port_ids ` loaded es)"
      using Cons.prems(2) unfolding l by auto
    have "is_file_node g0 n \<or> n \<in> identities r \<or> n \<in> \<Union> (identities ` loaded es)"
      using Cons.prems(3) unfolding l by auto
    then have "is_file_node g1 n \<or> n \<in> \<Union> (identities ` loaded es)"
      using load_record_kind [OF r n1] by blast
    from Cons.IH [OF rest n2 this] show ?thesis .
  qed
qed

subsection \<open>The shared file node\<close>

lemma load_Inr:
  assumes "load (Some g0) w listdir path = Inr g"
    and "(case path of None \<Rightarrow> metadata_dir w | Some p \<Rightarrow> Inr p) = Inr dir"
    and "listdir dir = Inr es"
  shows "load_entries (Some g0) es = Inr g"
  using assms by (simp add: load_def andthen_Inr)

lemma in_port_edges:
  assumes "sr_step r ''step_id'' = Some sid" and "pe \<in> set (sr_in_files r)"
    and "snd pe ''hash'' = Some h" and "h \<noteq> []"
  shows "h \<in> record_nodes r \<and> (h, sid @ ''__'' @ fst pe) \<in> record_edges r
       \<and> (sid @ ''__'' @ fst pe, sid) \<in> record_edges r"
proof -
  have "h \<in> port_nodes sid pe" "(h, sid @ ''__'' @ fst pe) \<in> port_edges sid True pe"
    "(sid @ ''__'' @ fst pe, sid) \<in> port_edges sid True pe"
    using assms(3,4) by (simp_all add: port_nodes_def port_edges_def)
  then show ?thesis
    unfolding record_nodes_def record_edges_def assms(1) using assms(2) by auto
qed

lemma out_port_edges:
  assumes "sr_step r ''step_id'' = Some sid" and "pe \<in> set (sr_out_files r)"
    and "snd pe ''hash'' = Some h" and "h \<noteq> []"
  shows "h \<in> record_nodes r \<and> (sid, sid @ ''__'' @ fst pe) \<in> record_edges r
       \<and> (sid @ ''__'' @ fst pe, h) \<in> record_edges r"
proof -
  have "h \<in> port_nodes sid pe" "(sid, sid @ ''__'' @ fst pe) \<in> port_edges sid False pe"
    "(sid @ ''__'' @ fst pe, h) \<in> port_edges sid False pe"
    using assms(3,4) by (simp_all add: port_nodes_def port_edges_def)
  then show ?thesis
    unfolding record_nodes_def record_edges_def assms(1) using assms(2) by auto
qed

text \<open>
  What the graph-building rules of \<open>load\<close> give once the name \<open>pgraph\<close> is bound to
  some graph \<open>g0\<close>. The module as written binds none, so the first hypothesis is not
  met by any call of \<open>load\<close> as it stands (lemma \<open>load_unbound\<close> below); this is a
  statement about the rules, not about what \<open>load\<close> returns. The nodes and edges of
  the result are those of \<open>g0\<close> and those that the rules give for the records read, no
  others. For a non-empty identity \<open>h\<close>: every input port whose entry has identity
  \<open>h\<close> has the edge from node \<open>h\<close> and the edge to its step, and every output port
  whose entry has identity \<open>h\<close> has the edge from its step and the edge to node \<open>h\<close>.
  Node \<open>h\<close> carries the kind \<open>file\<close> unless \<open>h\<close> is also the identifier of a step or
  port node.
\<close>

lemma load_bound_shared_file_node:
  assumes "load (Some g0) w listdir path = Inr g"
    and "(case path of None \<Rightarrow> metadata_dir w | Some p \<Rightarrow> Inr p) = Inr dir"
    and "listdir dir = Inr es"
    and "h \<noteq> []"
  shows "dom (nodes g) = dom (nodes g0) \<union> \<Union> (record_nodes ` loaded es)
       \<and> edges g = edges g0 \<union> \<Union> (record_edges ` loaded es)
       \<and> (\<forall>r sid pe. r \<in> loaded es \<and> sr_step r ''step_id'' = Some sid
              \<and> pe \<in> set (sr_in_files r) \<and> snd pe ''hash'' = Some h
            \<longrightarrow> h \<in> dom (nodes g) \<and> (h, sid @ ''__'' @ fst pe) \<in> edges g
              \<and> (sid @ ''__'' @ fst pe, sid) \<in> edges g)
       \<and> (\<forall>r sid pe. r \<in> loaded es \<and> sr_step r ''step_id'' = Some sid
              \<and> pe \<in> set (sr_out_files r) \<and> snd pe ''hash'' = Some h
            \<longrightarrow> h \<in> dom (nodes g) \<and> (sid, sid @ ''__'' @ fst pe) \<in> edges g
              \<and> (sid @ ''__'' @ fst pe, h) \<in> edges g)
       \<and> (\<forall>ra sa pa rb sb pb.
              ra \<in> loaded es \<and> sr_step ra ''step_id'' = Some sa
              \<and> pa \<in> set (sr_out_files ra) \<and> snd pa ''hash'' = Some h
              \<and> rb \<in> loaded es \<and> sr_step rb ''step_id'' = Some sb
              \<and> pb \<in> set (sr_in_files rb) \<and> snd pb ''hash'' = Some h
            \<longrightarrow> (sa, sa @ ''__'' @ fst pa) \<in> edges g
              \<and> (sa @ ''__'' @ fst pa, h) \<in> edges g
              \<and> (h, sb @ ''__'' @ fst pb) \<in> edges g
              \<and> (sb @ ''__'' @ fst pb, sb) \<in> edges g)
       \<and> (h \<in> \<Union> (identities ` loaded es) \<and> h \<notin> \<Union> (step_and_port_ids ` loaded es)
            \<longrightarrow> is_file_node g h)"
proof -
  note L = load_Inr [OF assms(1,2,3)]
  note S = load_entries_sets [OF L]
  have N: "dom (nodes g) = dom (nodes g0) \<union> \<Union> (record_nodes ` loaded es)"
    and E: "edges g = edges g0 \<union> \<Union> (record_edges ` loaded es)"
    using S by blast+
  have inp: "h \<in> dom (nodes g) \<and> (h, sid @ ''__'' @ fst pe) \<in> edges g
              \<and> (sid @ ''__'' @ fst pe, sid) \<in> edges g"
    if "r \<in> loaded es" "sr_step r ''step_id'' = Some sid"
      "pe \<in> set (sr_in_files r)" "snd pe ''hash'' = Some h" for r sid pe
    using in_port_edges [OF that(2,3,4) assms(4)] that(1) unfolding N E by blast
  have out: "h \<in> dom (nodes g) \<and> (sid, sid @ ''__'' @ fst pe) \<in> edges g
              \<and> (sid @ ''__'' @ fst pe, h) \<in> edges g"
    if "r \<in> loaded es" "sr_step r ''step_id'' = Some sid"
      "pe \<in> set (sr_out_files r)" "snd pe ''hash'' = Some h" for r sid pe
    using out_port_edges [OF that(2,3,4) assms(4)] that(1) unfolding N E by blast
  have kind: "is_file_node g h"
    if "h \<in> \<Union> (identities ` loaded es)" "h \<notin> \<Union> (step_and_port_ids ` loaded es)"
    using load_entries_kind [OF L that(2)] that(1) by blast
  have 3: "\<forall>r sid pe. r \<in> loaded es \<and> sr_step r ''step_id'' = Some sid
              \<and> pe \<in> set (sr_in_files r) \<and> snd pe ''hash'' = Some h
            \<longrightarrow> h \<in> dom (nodes g) \<and> (h, sid @ ''__'' @ fst pe) \<in> edges g
              \<and> (sid @ ''__'' @ fst pe, sid) \<in> edges g"
    using inp by blast
  have 4: "\<forall>r sid pe. r \<in> loaded es \<and> sr_step r ''step_id'' = Some sid
              \<and> pe \<in> set (sr_out_files r) \<and> snd pe ''hash'' = Some h
            \<longrightarrow> h \<in> dom (nodes g) \<and> (sid, sid @ ''__'' @ fst pe) \<in> edges g
              \<and> (sid @ ''__'' @ fst pe, h) \<in> edges g"
    using out by blast
  have 5: "\<forall>ra sa pa rb sb pb.
              ra \<in> loaded es \<and> sr_step ra ''step_id'' = Some sa
              \<and> pa \<in> set (sr_out_files ra) \<and> snd pa ''hash'' = Some h
              \<and> rb \<in> loaded es \<and> sr_step rb ''step_id'' = Some sb
              \<and> pb \<in> set (sr_in_files rb) \<and> snd pb ''hash'' = Some h
            \<longrightarrow> (sa, sa @ ''__'' @ fst pa) \<in> edges g
              \<and> (sa @ ''__'' @ fst pa, h) \<in> edges g
              \<and> (h, sb @ ''__'' @ fst pb) \<in> edges g
              \<and> (sb @ ''__'' @ fst pb, sb) \<in> edges g"
  proof (intro allI impI)
    fix ra sa pa rb sb pb
    assume a: "ra \<in> loaded es \<and> sr_step ra ''step_id'' = Some sa
              \<and> pa \<in> set (sr_out_files ra) \<and> snd pa ''hash'' = Some h
              \<and> rb \<in> loaded es \<and> sr_step rb ''step_id'' = Some sb
              \<and> pb \<in> set (sr_in_files rb) \<and> snd pb ''hash'' = Some h"
    from a have A: "ra \<in> loaded es" "sr_step ra ''step_id'' = Some sa"
      "pa \<in> set (sr_out_files ra)" "snd pa ''hash'' = Some h" by simp_all
    from a have B: "rb \<in> loaded es" "sr_step rb ''step_id'' = Some sb"
      "pb \<in> set (sr_in_files rb)" "snd pb ''hash'' = Some h" by simp_all
    from out [OF A] inp [OF B]
    show "(sa, sa @ ''__'' @ fst pa) \<in> edges g
              \<and> (sa @ ''__'' @ fst pa, h) \<in> edges g
              \<and> (h, sb @ ''__'' @ fst pb) \<in> edges g
              \<and> (sb @ ''__'' @ fst pb, sb) \<in> edges g"
      by simp
  qed
  have 6: "h \<in> \<Union> (identities ` loaded es) \<and> h \<notin> \<Union> (step_and_port_ids ` loaded es)
            \<longrightarrow> is_file_node g h"
    using kind by simp
  from N E 3 4 5 6 show ?thesis by (intro conjI)
qed

lemma loaded_md: "loaded entries_md = {rec_A, rec_B}"
  unfolding entries_md_def loaded_Cons by (simp add: endswith_def loaded_def insert_commute)

lemma record_sets_ex:
  "record_edges rec_A = {(''A'', ''A__out''), (''A__out'', ''sha1_x'')}"
  "record_edges rec_B = {(''B__inp'', ''B''), (''sha1_x'', ''B__inp''), (''B'', ''B__out'')}"
  "record_nodes rec_A = {''A'', ''A__out'', ''sha1_x''}"
  "record_nodes rec_B = {''B'', ''B__inp'', ''sha1_x'', ''B__out''}"
  "record_nodes rec_C = {''C''}"
  by (simp_all add: record_edges_def record_nodes_def port_edges_def port_nodes_def
      rec_A_def rec_B_def rec_C_def insert_commute)

lemma load_md_exists: "\<exists>g. load (Some empty_graph) world0 listdir_ex None = Inr g"
proof -
  have "\<forall>e \<in> set entries_md. loadable e"
    by (simp add: entries_md_def loadable_def endswith_def rec_A_def rec_B_def)
  then obtain g where "load_entries (Some empty_graph) entries_md = Inr g"
    using load_entries_loadable by blast
  then show ?thesis
    by (simp add: load_def metadata_dir_def world0_def listdir_ex_def andthen_Inr)
qed

lemma load_bound_md:
  "\<exists>g. load (Some empty_graph) world0 listdir_ex None = Inr g
       \<and> (''A'', ''A__out'') \<in> edges g
       \<and> (''A__out'', ''sha1_x'') \<in> edges g
       \<and> (''sha1_x'', ''B__inp'') \<in> edges g
       \<and> (''B__inp'', ''B'') \<in> edges g
       \<and> is_file_node g ''sha1_x''
       \<and> edges g = {(''A'', ''A__out''), (''A__out'', ''sha1_x''), (''sha1_x'', ''B__inp''),
                    (''B__inp'', ''B''), (''B'', ''B__out'')}
       \<and> dom (nodes g) = {''A'', ''A__out'', ''sha1_x'', ''B'', ''B__inp'', ''B__out''}"
proof -
  obtain g where g: "load (Some empty_graph) world0 listdir_ex None = Inr g"
    using load_md_exists by blast
  have dir: "(case None of None \<Rightarrow> metadata_dir world0 | Some p \<Rightarrow> Inr p) = Inr ''/md''"
    by (simp add: metadata_dir_def world0_def)
  have es: "listdir_ex ''/md'' = Inr entries_md"
    by (simp add: listdir_ex_def)
  have h: "''sha1_x'' \<noteq> []" by simp
  note T = load_bound_shared_file_node [OF g dir es h, unfolded loaded_md]
  have A: "sr_step rec_A ''step_id'' = Some ''A''"
    "(''out'', [''hash'' \<mapsto> ''sha1_x'', ''fname'' \<mapsto> ''x.txt'']) \<in> set (sr_out_files rec_A)"
    by (simp_all add: rec_A_def)
  have B: "sr_step rec_B ''step_id'' = Some ''B''"
    "(''inp'', [''hash'' \<mapsto> ''sha1_x'', ''fname'' \<mapsto> ''copy.txt'']) \<in> set (sr_in_files rec_B)"
    by (simp_all add: rec_B_def)
  have chain: "(''A'', ''A'' @ ''__'' @ ''out'') \<in> edges g
       \<and> (''A'' @ ''__'' @ ''out'', ''sha1_x'') \<in> edges g
       \<and> (''sha1_x'', ''B'' @ ''__'' @ ''inp'') \<in> edges g
       \<and> (''B'' @ ''__'' @ ''inp'', ''B'') \<in> edges g"
    using T [THEN conjunct2, THEN conjunct2, THEN conjunct2, THEN conjunct2, THEN conjunct1,
        rule_format, of rec_A "''A''" "(''out'', [''hash'' \<mapsto> ''sha1_x'', ''fname'' \<mapsto> ''x.txt''])"
          rec_B "''B''" "(''inp'', [''hash'' \<mapsto> ''sha1_x'', ''fname'' \<mapsto> ''copy.txt''])"]
      A B by simp
  have ids: "''sha1_x'' \<in> \<Union> (identities ` {rec_A, rec_B})"
    "''sha1_x'' \<notin> \<Union> (step_and_port_ids ` {rec_A, rec_B})"
    by (simp_all add: identities_def step_and_port_ids_def rec_A_def rec_B_def)
  have kind: "is_file_node g ''sha1_x''"
    using T ids by blast
  have E: "edges g = {(''A'', ''A__out''), (''A__out'', ''sha1_x''), (''sha1_x'', ''B__inp''),
                    (''B__inp'', ''B''), (''B'', ''B__out'')}"
    using T [THEN conjunct2, THEN conjunct1]
    by (simp add: record_sets_ex empty_graph_def insert_commute)
  have N: "dom (nodes g) = {''A'', ''A__out'', ''sha1_x'', ''B'', ''B__inp'', ''B__out''}"
    using T [THEN conjunct1]
    by (simp add: record_sets_ex empty_graph_def insert_commute)
  from chain have chain': "(''A'', ''A__out'') \<in> edges g" "(''A__out'', ''sha1_x'') \<in> edges g"
    "(''sha1_x'', ''B__inp'') \<in> edges g" "(''B__inp'', ''B'') \<in> edges g"
    by simp_all
  show ?thesis
    by (rule exI [of _ g]) (intro conjI g chain' kind E N)
qed

lemma load_unbound: "\<exists>e. load None w listdir path = Inl e"
proof (cases "case path of None \<Rightarrow> metadata_dir w | Some p \<Rightarrow> Inr p")
  case (Inl e)
  then show ?thesis by (simp add: load_def andthen_Inl)
next
  case (Inr p)
  show ?thesis
  proof (cases "listdir p")
    case (Inl e)
    then show ?thesis using Inr by (simp add: load_def andthen_Inl andthen_Inr)
  next
    case es: (Inr es)
    then show ?thesis
      using Inr load_entries_unbound [of es] by (simp add: load_def andthen_Inr)
  qed
qed

lemma load_md_unbound: "load None world0 listdir_ex None = Inl (NameError ''pgraph'')"
  by (simp add: load_def metadata_dir_def world0_def listdir_ex_def entries_md_def
      endswith_def load_record_def rec_A_def andthen_def)

text \<open>
  Claim C2 fails on the code: \<open>load\<close> produces no graph. The name \<open>pgraph\<close> is free
  in \<open>load\<close> and the module binds none, so every call raises, whatever the store
  holds. The store \<open>/md\<close> holds the records of a step A whose output and of a step B
  whose input have the identity \<open>sha1_x\<close>; loading it raises NameError, and there is
  no file node and no path from A to B. Were the name bound to an empty graph, the same
  call would return the graph with the one node \<open>sha1_x\<close> of kind \<open>file\<close> and the path
  from A over A's port, that node and B's port to B.
\<close>

theorem load_builds_no_shared_file_node:
  "(\<forall>w listdir path. \<exists>e. load None w listdir path = Inl e)
   \<and> listdir_ex ''/md'' = Inr entries_md
   \<and> loaded entries_md = {rec_A, rec_B}
   \<and> sr_step rec_A ''step_id'' = Some ''A''
   \<and> map_of (sr_out_files rec_A) ''out''
        = Some [''hash'' \<mapsto> ''sha1_x'', ''fname'' \<mapsto> ''x.txt'']
   \<and> sr_step rec_B ''step_id'' = Some ''B''
   \<and> map_of (sr_in_files rec_B) ''inp''
        = Some [''hash'' \<mapsto> ''sha1_x'', ''fname'' \<mapsto> ''copy.txt'']
   \<and> load None world0 listdir_ex None = Inl (NameError ''pgraph'')
   \<and> (\<exists>g. load (Some empty_graph) world0 listdir_ex None = Inr g
          \<and> (''A'', ''A__out'') \<in> edges g
          \<and> (''A__out'', ''sha1_x'') \<in> edges g
          \<and> (''sha1_x'', ''B__inp'') \<in> edges g
          \<and> (''B__inp'', ''B'') \<in> edges g
          \<and> is_file_node g ''sha1_x'')"
proof -
  have 1: "\<forall>w listdir path. \<exists>e. load None w listdir path = Inl e"
    using load_unbound by blast
  have 2: "listdir_ex ''/md'' = Inr entries_md"
    by (simp add: listdir_ex_def)
  have 3: "sr_step rec_A ''step_id'' = Some ''A''"
    "map_of (sr_out_files rec_A) ''out''
        = Some [''hash'' \<mapsto> ''sha1_x'', ''fname'' \<mapsto> ''x.txt'']"
    by (simp_all add: rec_A_def)
  have 4: "sr_step rec_B ''step_id'' = Some ''B''"
    "map_of (sr_in_files rec_B) ''inp''
        = Some [''hash'' \<mapsto> ''sha1_x'', ''fname'' \<mapsto> ''copy.txt'']"
    by (simp_all add: rec_B_def)
  have 5: "\<exists>g. load (Some empty_graph) world0 listdir_ex None = Inr g
          \<and> (''A'', ''A__out'') \<in> edges g
          \<and> (''A__out'', ''sha1_x'') \<in> edges g
          \<and> (''sha1_x'', ''B__inp'') \<in> edges g
          \<and> (''B__inp'', ''B'') \<in> edges g
          \<and> is_file_node g ''sha1_x''"
    using load_bound_md by blast
  show ?thesis
    by (intro conjI 1 2 loaded_md 3 4 load_md_unbound 5)
qed

subsection \<open>A graph that is not built afresh\<close>

text \<open>
  The second half of claim C4 holds for a bound graph: when two listings of a store hold
  the same entries, in any order, and \<open>load\<close> returns a graph for one of them, it
  returns a graph for the other, with the same nodes and the same edges.
\<close>

lemma load_order_independent:
  assumes "(case path of None \<Rightarrow> metadata_dir w | Some p \<Rightarrow> Inr p) = Inr dir"
    and "listdir dir = Inr es" and "listdir' dir = Inr es'" and "set es = set es'"
    and "load (Some g0) w listdir path = Inr g"
  shows "\<exists>g'. load (Some g0) w listdir' path = Inr g'
            \<and> dom (nodes g') = dom (nodes g) \<and> edges g' = edges g"
proof -
  have "load_entries (Some g0) es = Inr g"
    using load_Inr [OF assms(5,1,2)] .
  from load_entries_order [OF assms(4) this] obtain g' where
    "load_entries (Some g0) es' = Inr g'" "dom (nodes g') = dom (nodes g)" "edges g' = edges g"
    by blast
  moreover from this(1) have "load (Some g0) w listdir' path = Inr g'"
    using assms(1,3) by (simp add: load_def andthen_Inr)
  ultimately show ?thesis by blast
qed

text \<open>
  Claim C4 at a concrete store. As the module is written nothing binds \<open>pgraph\<close>, and
  \<open>load\<close> raises NameError instead of returning a graph. With the name bound to one
  graph, as a module global would be, loading the store \<open>/md\<close> and then the store
  \<open>/other\<close> returns for the second store a graph that still holds the nodes of the
  first: the call does not build a fresh graph.
\<close>

theorem load_not_fresh:
  "load None world0 listdir_ex None = Inl (NameError ''pgraph'')
   \<and> (\<exists>g1 g2. load (Some empty_graph) world0 listdir_ex (Some ''/md'') = Inr g1
         \<and> load (Some g1) world0 listdir_ex (Some ''/other'') = Inr g2
         \<and> record_nodes rec_C = {''C''}
         \<and> dom (nodes g2) = {''A'', ''A__out'', ''sha1_x'', ''B'', ''B__inp'', ''B__out'', ''C''})"
proof -
  have "\<forall>e \<in> set entries_md. loadable e"
    by (simp add: entries_md_def loadable_def endswith_def rec_A_def rec_B_def)
  then obtain g1 where l1: "load_entries (Some empty_graph) entries_md = Inr g1"
    using load_entries_loadable by blast
  have "\<forall>e \<in> set [(''C.json'', Inr rec_C)]. loadable e"
    by (simp add: loadable_def endswith_def rec_C_def)
  then obtain g2 where l2: "load_entries (Some g1) [(''C.json'', Inr rec_C)] = Inr g2"
    using load_entries_loadable by blast
  have 1: "load (Some empty_graph) world0 listdir_ex (Some ''/md'') = Inr g1"
    using l1 by (simp add: load_def listdir_ex_def andthen_Inr)
  have 2: "load (Some g1) world0 listdir_ex (Some ''/other'') = Inr g2"
    using l2 by (simp add: load_def listdir_ex_def andthen_Inr)
  have lc: "loaded [(''C.json'', Inr rec_C)] = {rec_C}"
    unfolding loaded_Cons by (simp add: endswith_def loaded_def)
  have n1: "dom (nodes g1) = {''A'', ''A__out'', ''sha1_x'', ''B'', ''B__inp'', ''B__out''}"
    using load_entries_sets [OF l1, unfolded loaded_md, THEN conjunct1]
    by (simp add: record_sets_ex empty_graph_def insert_commute)
  have n2: "dom (nodes g2) = {''A'', ''A__out'', ''sha1_x'', ''B'', ''B__inp'', ''B__out'', ''C''}"
    using load_entries_sets [OF l2, unfolded lc, THEN conjunct1]
    by (simp add: record_sets_ex n1 insert_commute)
  show ?thesis
    by (intro conjI exI [of _ g1] exI [of _ g2] load_md_unbound 1 2 record_sets_ex(5) n2)
qed

end
